theory Spec2Isabelle
  imports
    Complex_Main
    "HOL-Library.AList"
    "HOL-Library.Sublist"
    "HOL-Library.Char_ord"
    "HOL-Library.List_Lexorder"
begin

section \<open>Python values and the standard library\<close>

text \<open>
  The analysis code is Python. Its dictionaries are insertion-ordered, so every \<open>dict\<close> is an
  association list read with \<^const>\<open>map_of\<close> and written with \<^const>\<open>AList.update\<close> (an
  existing key keeps its position, a new key goes to the end). Strings are \<^typ>\<open>string\<close>;
  integers are \<^typ>\<open>int\<close>, list lengths and counters are \<^typ>\<open>nat\<close>. An exception is a value
  of \<open>py_error\<close>, and a function that can raise returns \<open>py_error + 'a\<close>.
\<close>

datatype py_error = KeyError | AttributeError | ValueError | TypeError

text \<open>Opaque JSON payloads (a tool result's content, the unread keys of a tool input).\<close>

datatype json =
    JNull
  | JBool bool
  | JNum int
  | JStr string
  | JList "json list"
  | JDict "(string \<times> json) list"

text \<open>
  The \<open>input\<close> dictionary of a \<open>tool_use\<close> block. The code reads three of its keys, each a
  string when present; \<open>ti_extra\<close> holds every other key. The empty dictionary \<open>{}\<close>, which is
  also the default of \<open>block.get('input', {})\<close>, is \<open>empty_input\<close>.
\<close>

record tool_input =
  ti_prompt :: "string option"
  ti_subagent_type :: "string option"
  ti_command :: "string option"
  ti_extra :: "(string \<times> json) list"

definition empty_input :: tool_input where
  "empty_input = \<lparr>ti_prompt = None, ti_subagent_type = None, ti_command = None, ti_extra = []\<rparr>"

text \<open>
  A content block. \<open>TextBlock text\<close> is \<open>{'type': 'text', 'text': ...}\<close>;
  \<open>ToolUseBlock id name input\<close> is \<open>{'type': 'tool_use', 'id': ..., 'name': ..., 'input': ...}\<close>;
  \<open>ToolResultBlock tool_use_id content is_error\<close> is
  \<open>{'type': 'tool_result', 'tool_use_id': ..., 'content': ..., 'is_error': ...}\<close>, where an
  absent \<open>content\<close> is the default \<open>''\<close> of the code, \<open>JStr []\<close>. \<open>None\<close> is an absent key.
  \<open>OtherBlock\<close> is every other element of a content list: a dictionary of another or of no
  type, or a value that is no dictionary; the code skips all of them alike.
\<close>

datatype block =
    TextBlock "string option"
  | ToolUseBlock "string option" "string option" tool_input
  | ToolResultBlock "string option" json bool
  | OtherBlock

text \<open>
  The \<open>content\<close> of a message: absent, a plain string, a list of blocks, or any other value.
\<close>

datatype content = NoContent | StrContent string | ListContent "block list" | OtherContent

record message =
  role :: "string option"
  content :: content

text \<open>
  A request body: \<open>b_system\<close> is \<open>body.get('system', [])\<close>, each entry the \<open>text\<close> of a system
  block (\<open>None\<close> for an entry without text or one that is no dictionary); \<open>b_messages\<close> is
  \<open>body.get('messages', [])\<close>.
\<close>

record body =
  b_system :: "string option list"
  b_messages :: "message list"

text \<open>
  \<open>datetime\<close>: time-zone aware or naive, and its position on the time line in microseconds.
  Subtracting an aware and a naive datetime raises \<open>TypeError\<close>.
\<close>

datatype datetime = DateTime bool int

fun dt_aware :: "datetime \<Rightarrow> bool" where
  "dt_aware (DateTime a m) = a"

fun dt_micros :: "datetime \<Rightarrow> int" where
  "dt_micros (DateTime a m) = m"

definition dt_diff_micros :: "datetime \<Rightarrow> datetime \<Rightarrow> py_error + int" where
  "dt_diff_micros later earlier =
     (if dt_aware later = dt_aware earlier then Inr (dt_micros later - dt_micros earlier)
      else Inl TypeError)"

text \<open>
  The regular expressions of \<open>extract_command_from_message\<close>, by what they are for:
  \<^item> \<open>CommandMarker\<close>: \<^verbatim>\<open>Command:\s*\<close>
  \<^item> \<open>HeredocOpener\<close>: \<^verbatim>\<open><<['\"]?([A-Za-z_][A-Za-z0-9_]*)['\"]?\<close>
  \<^item> \<open>HeredocCloser m\<close>: \<^verbatim>\<open>\n\<close>, the escaped marker \<open>m\<close>, then \<^verbatim>\<open>(?:\s*\)?"?\)?)?\s*(?:\n|$)\<close>
  \<^item> \<open>FirstLine\<close>: \<^verbatim>\<open>^(.+?)(?:\n|$)\<close>
\<close>

datatype regex = CommandMarker | HeredocOpener | HeredocCloser string | FirstLine

text \<open>A match object: where the match ends, and its first group.\<close>

record re_match =
  m_end :: nat
  m_group1 :: string

text \<open>
  What the code takes from Python's standard library, as parameters of the model:
  \<^item> \<open>sha256_hexdigest text\<close> is \<open>hashlib.sha256(text.encode()).hexdigest()\<close>;
  \<^item> \<open>str_of_input\<close> and \<open>str_of_json\<close> are \<open>str()\<close> on a tool input and on a JSON value;
  \<^item> \<open>fromisoformat\<close> is \<open>datetime.fromisoformat\<close>, \<open>None\<close> where it raises \<open>ValueError\<close>;
  \<^item> \<open>re_search\<close> and \<open>re_match_start\<close> are \<open>re.search\<close> and \<open>re.match\<close>, \<open>None\<close> where
    nothing matches.
  Every theorem below holds for every such library \<open>L\<close>.
\<close>

record pylib =
  sha256_hexdigest :: "string \<Rightarrow> string"
  str_of_input :: "tool_input \<Rightarrow> string"
  str_of_json :: "json \<Rightarrow> string"
  fromisoformat :: "string \<Rightarrow> datetime option"
  re_search :: "regex \<Rightarrow> string \<Rightarrow> re_match option"
  re_match_start :: "regex \<Rightarrow> string \<Rightarrow> re_match option"

subsection \<open>String operations\<close>

definition newline :: char where
  "newline = CHR 0x0A"

text \<open>The ASCII characters that \<open>str.split()\<close> and \<open>str.strip()\<close> treat as whitespace.\<close>

definition py_whitespace :: "char \<Rightarrow> bool" where
  "py_whitespace c \<longleftrightarrow>
     c \<in> set [CHR '' '', CHR 0x09, CHR 0x0A, CHR 0x0B, CHR 0x0C, CHR 0x0D,
                CHR 0x1C, CHR 0x1D, CHR 0x1E, CHR 0x1F]"

text \<open>\<open>sep.join(parts)\<close>.\<close>

fun join :: "string \<Rightarrow> string list \<Rightarrow> string" where
  "join sep [] = []"
| "join sep [x] = x"
| "join sep (x # y # ys) = x @ sep @ join sep (y # ys)"

text \<open>\<open>text.split()\<close>: the maximal runs of characters that are not whitespace.\<close>

fun split_ws :: "string \<Rightarrow> string \<Rightarrow> string list" where
  "split_ws w [] = (if w = [] then [] else [w])"
| "split_ws w (c # cs) =
     (if py_whitespace c then (if w = [] then split_ws [] cs else w # split_ws [] cs)
      else split_ws (w @ [c]) cs)"

definition py_split :: "string \<Rightarrow> string list" where
  "py_split s = split_ws [] s"

text \<open>\<open>' '.join(text.split())[:n]\<close>.\<close>

definition normalize_text :: "string \<Rightarrow> nat \<Rightarrow> string" where
  "normalize_text s n = take n (join '' '' (py_split s))"

text \<open>\<open>s.strip()\<close>.\<close>

definition py_strip :: "string \<Rightarrow> string" where
  "py_strip s = rev (dropWhile py_whitespace (rev (dropWhile py_whitespace s)))"

text \<open>\<open>s.replace('Z', '+00:00')\<close>.\<close>

definition replace_Z :: "string \<Rightarrow> string" where
  "replace_Z s = concat (map (\<lambda>c. if c = CHR ''Z'' then ''+00:00'' else [c]) s)"

text \<open>\<open>s.replace('\n', ' ')\<close>.\<close>

definition replace_newlines :: "string \<Rightarrow> string" where
  "replace_newlines s = map (\<lambda>c. if c = newline then CHR '' '' else c) s"

text \<open>The decimal numeral of a natural number, as an f-string prints it.\<close>

definition digit_char :: "nat \<Rightarrow> char" where
  "digit_char d = ''0123456789'' ! d"

fun str_of_nat :: "nat \<Rightarrow> string" where
  "str_of_nat n =
     (if n < 10 then [digit_char n] else str_of_nat (n div 10) @ [digit_char (n mod 10)])"

declare str_of_nat.simps [simp del]

text \<open>\<open>x or ''\<close> for an optional string, and its truth value (\<open>None\<close> and \<open>''\<close> are false).\<close>

definition or_empty :: "string option \<Rightarrow> string" where
  "or_empty x = (case x of None \<Rightarrow> [] | Some s \<Rightarrow> s)"

definition truthy :: "string option \<Rightarrow> bool" where
  "truthy x \<longleftrightarrow> (case x of None \<Rightarrow> False | Some s \<Rightarrow> s \<noteq> [])"

section \<open>Conversation fingerprints (agent\_tracker.py)\<close>

text \<open>\<open>compute_hash(text, length)\<close>: the first \<open>length\<close> characters of the digest.\<close>

definition compute_hash :: "pylib \<Rightarrow> string \<Rightarrow> nat \<Rightarrow> string" where
  "compute_hash L text n = take n (sha256_hexdigest L text)"

text \<open>
  What one block adds to \<open>block_signature\<close>: nothing for a block of another type; for the
  three known types the type, and a hash of the content, never the identifier.
\<close>

fun block_signature :: "pylib \<Rightarrow> block \<Rightarrow> string option" where
  "block_signature L (TextBlock text) =
     Some (''text:'' @ compute_hash L (or_empty text) 8)"
| "block_signature L (ToolUseBlock tool_use_id tool_name tool_input) =
     Some (''tool_use:'' @ or_empty tool_name @ '':'' @
           compute_hash L (str_of_input L tool_input) 8)"
| "block_signature L (ToolResultBlock tool_use_id result_content is_error) =
     Some (''tool_result:'' @ compute_hash L (str_of_json L result_content) 8)"
| "block_signature L OtherBlock = None"

text \<open>The content of a message as a list of blocks, as the fingerprint normalises it.\<close>

fun content_blocks :: "content \<Rightarrow> block list" where
  "content_blocks (StrContent s) = [TextBlock (Some s)]"
| "content_blocks (ListContent bs) = bs"
| "content_blocks NoContent = []"
| "content_blocks OtherContent = []"

definition message_signature :: "pylib \<Rightarrow> message \<Rightarrow> string" where
  "message_signature L msg =
     or_empty (role msg) @ '':['' @
     join '','' (List.map_filter (block_signature L) (content_blocks (content msg))) @ '']''"

definition compute_conversation_fingerprint :: "pylib \<Rightarrow> message list \<Rightarrow> string" where
  "compute_conversation_fingerprint L messages =
     (if messages = [] then compute_hash L ''empty'' 16
      else compute_hash L (join ''|||'' (map (message_signature L) messages)) 16)"

text \<open>
  Two message lists that are identical except for the \<open>id\<close> of their \<open>tool_use\<close> blocks and the
  \<open>tool_use_id\<close> of their \<open>tool_result\<close> blocks.
\<close>

fun block_same_but_ids :: "block \<Rightarrow> block \<Rightarrow> bool" where
  "block_same_but_ids (ToolUseBlock i n inp) (ToolUseBlock i' n' inp') \<longleftrightarrow> n = n' \<and> inp = inp'"
| "block_same_but_ids (ToolResultBlock i c e) (ToolResultBlock i' c' e') \<longleftrightarrow> c = c' \<and> e = e'"
| "block_same_but_ids b b' \<longleftrightarrow> b = b'"

fun content_same_but_ids :: "content \<Rightarrow> content \<Rightarrow> bool" where
  "content_same_but_ids (ListContent bs) (ListContent bs') \<longleftrightarrow> list_all2 block_same_but_ids bs bs'"
| "content_same_but_ids c c' \<longleftrightarrow> c = c'"

definition message_same_but_ids :: "message \<Rightarrow> message \<Rightarrow> bool" where
  "message_same_but_ids m m' \<longleftrightarrow>
     role m = role m' \<and> content_same_but_ids (content m) (content m')"

definition messages_same_but_ids :: "message list \<Rightarrow> message list \<Rightarrow> bool" where
  "messages_same_but_ids ms ms' \<longleftrightarrow> list_all2 message_same_but_ids ms ms'"

section \<open>The agent tracker (agent\_tracker.py)\<close>

subsection \<open>State\<close>

text \<open>The entries of \<open>AgentInstance.tool_uses\<close> and \<open>AgentInstance.tool_results\<close>.\<close>

record tool_use_summary =
  tus_tool_use_id :: string
  tus_tool_name :: "string option"
  tus_request_id :: int
  tus_timestamp :: string

record tool_result_summary =
  trs_tool_use_id :: string
  trs_request_id :: int
  trs_timestamp :: string
  trs_is_error :: bool

text \<open>The dataclass \<open>AgentInstance\<close>.\<close>

record agent_instance =
  agent_id :: string
  system_prompt_hash :: string
  conversation_fingerprint :: string
  requests :: "int list"
  first_request_id :: int
  last_request_id :: int
  message_count_history :: "nat list"
  spawned_by_task_id :: "string option"
  parent_agent_id :: "string option"
  first_user_message :: string
  child_agent_ids :: "string list"
  tool_uses :: "tool_use_summary list"
  tool_results :: "tool_result_summary list"
  timestamps :: "string list"

text \<open>
  The values of \<open>task_prompts\<close>. \<open>track_tool_use\<close> stores all five keys,
  \<open>register_task_prompt\<close> only the first two.
\<close>

record task_info =
  tp_task_id :: string
  tp_parent_agent_id :: string
  tp_request_id :: "int option"
  tp_subagent_type :: "string option"
  tp_prompt :: "string option"

text \<open>The values of \<open>tool_use_index\<close>, \<open>tool_result_index\<close> and \<open>tool_command_index\<close>.\<close>

record tool_use_info =
  ui_tool_use_id :: string
  ui_tool_name :: "string option"
  ui_agent_id :: string
  ui_request_id :: int
  ui_timestamp :: string
  ui_input :: tool_input

record tool_result_info =
  ri_tool_use_id :: string
  ri_agent_id :: string
  ri_request_id :: int
  ri_timestamp :: string
  ri_is_error :: bool

record cmd_info =
  ci_tool_use_id :: string
  ci_parent_agent_id :: string
  ci_request_id :: int
  ci_tool_name :: "string option"
  ci_command :: string
  ci_normalized_command :: string

text \<open>The entries of the lists in \<open>response_content_index\<close>.\<close>

record source_info =
  si_agent_id :: string
  si_request_id :: int
  si_timestamp :: string
  si_content_hash :: string

text \<open>
  An element of \<open>workflow_edges\<close>. Every edge has the first six keys; \<open>tool_result\<close> edges
  also have \<open>tool_use_id\<close>, \<open>tool_name\<close> and \<open>is_error\<close>, \<open>content_reuse\<close> edges
  \<open>content_hash\<close>, \<open>request_sequence\<close> edges \<open>time_gap_ms\<close> (which may be \<open>None\<close>).
\<close>

record workflow_edge =
  e_type :: string
  e_source_agent_id :: string
  e_target_agent_id :: string
  e_source_request_id :: int
  e_target_request_id :: int
  e_confidence :: rat
  e_tool_use_id :: "string option"
  e_tool_name :: "string option"
  e_is_error :: "bool option"
  e_content_hash :: "string option"
  e_time_gap_ms :: "int option"

text \<open>The fields of \<open>AgentInstanceTracker\<close>.\<close>

record tracker =
  instances :: "(string \<times> agent_instance) list"
  fingerprint_to_agent :: "(string \<times> string) list"
  request_to_agent :: "(int \<times> string) list"
  task_prompts :: "(string \<times> task_info) list"
  agent_counter :: nat
  tool_use_index :: "(string \<times> tool_use_info) list"
  tool_result_index :: "(string \<times> tool_result_info) list"
  workflow_edges :: "workflow_edge list"
  response_content_index :: "(string \<times> source_info list) list"
  tool_command_index :: "(string \<times> cmd_info) list"

text \<open>\<open>AgentInstanceTracker.__init__\<close>.\<close>

definition init_tracker :: tracker where
  "init_tracker =
     \<lparr>instances = [], fingerprint_to_agent = [], request_to_agent = [], task_prompts = [],
      agent_counter = 0, tool_use_index = [], tool_result_index = [], workflow_edges = [],
      response_content_index = [], tool_command_index = []\<rparr>"

subsection \<open>Hashes of the request\<close>

definition compute_system_prompt_hash :: "pylib \<Rightarrow> string option list \<Rightarrow> string" where
  "compute_system_prompt_hash L system =
     (let texts = filter (\<lambda>text. text \<noteq> []) (map or_empty system)
      in if texts \<noteq> [] then compute_hash L (join ''|||'' texts) 16 else ''no_system'')"

text \<open>The text of the first \<open>text\<close> block of a list, \<open>''\<close> when there is none.\<close>

fun first_text :: "block list \<Rightarrow> string" where
  "first_text [] = []"
| "first_text (TextBlock text # bs) = or_empty text"
| "first_text (b # bs) = first_text bs"

definition extract_first_user_message :: "message list \<Rightarrow> string" where
  "extract_first_user_message messages =
     (case messages of
        [] \<Rightarrow> []
      | first_msg # rest \<Rightarrow>
          if role first_msg \<noteq> Some ''user'' then []
          else (case content first_msg of
                  NoContent \<Rightarrow> []
                | StrContent s \<Rightarrow> s
                | ListContent bs \<Rightarrow> first_text bs
                | OtherContent \<Rightarrow> []))"

subsection \<open>Spawn detection\<close>

definition is_alnum :: "char \<Rightarrow> bool" where
  "is_alnum c \<longleftrightarrow>
     (let n = (of_char c :: nat)
      in (48 \<le> n \<and> n \<le> 57) \<or> (65 \<le> n \<and> n \<le> 90) \<or> (97 \<le> n \<and> n \<le> 122))"

definition to_lower :: "char \<Rightarrow> char" where
  "to_lower c = (let n = (of_char c :: nat) in if 65 \<le> n \<and> n \<le> 90 then char_of (n + 32) else c)"

text \<open>\<open>normalize_command\<close>: \<^verbatim>\<open>re.sub(r'[^a-zA-Z0-9]', '', command).lower()\<close>.\<close>

definition normalize_command :: "string \<Rightarrow> string" where
  "normalize_command command = (if command = [] then [] else map to_lower (filter is_alnum command))"

definition detect_task_spawn :: "pylib \<Rightarrow> tracker \<Rightarrow> string \<Rightarrow> task_info option" where
  "detect_task_spawn L t first_message =
     (if first_message = [] then None
      else map_of (task_prompts t) (compute_hash L first_message 16))"

definition extract_command_from_message :: "pylib \<Rightarrow> string \<Rightarrow> string option" where
  "extract_command_from_message L message =
     (if message = [] then None
      else (case re_search L CommandMarker message of
              None \<Rightarrow> None
            | Some cmd_match \<Rightarrow>
                (let remaining = drop (m_end cmd_match) message
                 in if remaining = [] then None
                    else (case re_search L HeredocOpener remaining of
                            Some heredoc_match \<Rightarrow>
                              (case re_search L (HeredocCloser (m_group1 heredoc_match)) remaining of
                                 Some close_match \<Rightarrow>
                                   Some (py_strip (take (m_end close_match) remaining))
                               | None \<Rightarrow>
                                   (let first_line =
                                          py_strip (takeWhile (\<lambda>c. c \<noteq> newline) remaining)
                                    in if first_line \<noteq> [] then Some first_line else None))
                          | None \<Rightarrow>
                              (case re_match_start L FirstLine remaining of
                                 Some m \<Rightarrow> Some (py_strip (m_group1 m))
                               | None \<Rightarrow> None)))))"

text \<open>
  The prefix and suffix scan of \<open>detect_tool_spawn\<close>, over the values of
  \<open>tool_command_index\<close> in insertion order; the first match wins.
\<close>

fun scan_commands :: "string \<Rightarrow> cmd_info list \<Rightarrow> cmd_info option" where
  "scan_commands normalized_command [] = None"
| "scan_commands normalized_command (info # rest) =
     (let parent_normalized = ci_normalized_command info
      in if length parent_normalized < 15 then scan_commands normalized_command rest
         else if prefix normalized_command parent_normalized then Some info
         else if prefix parent_normalized normalized_command then Some info
         else if suffix normalized_command parent_normalized then Some info
         else scan_commands normalized_command rest)"

definition detect_tool_spawn :: "pylib \<Rightarrow> tracker \<Rightarrow> string \<Rightarrow> cmd_info option" where
  "detect_tool_spawn L t first_message =
     (if first_message = [] then None
      else (case extract_command_from_message L first_message of
              None \<Rightarrow> None
            | Some command \<Rightarrow>
                if command = [] then None
                else (let normalized_command = normalize_command command
                      in (case map_of (tool_command_index t) (compute_hash L normalized_command 16) of
                            Some info \<Rightarrow> Some info
                          | None \<Rightarrow>
                              if 15 \<le> length normalized_command
                              then scan_commands normalized_command (map snd (tool_command_index t))
                              else None))))"

definition register_task_prompt :: "pylib \<Rightarrow> tracker \<Rightarrow> string \<Rightarrow> string \<Rightarrow> string \<Rightarrow> tracker" where
  "register_task_prompt L t task_id prompt agent =
     (if prompt \<noteq> [] then
        t\<lparr>task_prompts :=
            AList.update (compute_hash L prompt 16)
              \<lparr>tp_task_id = task_id, tp_parent_agent_id = agent, tp_request_id = None,
               tp_subagent_type = None, tp_prompt = None\<rparr>
              (task_prompts t)\<rparr>
      else t)"

subsection \<open>Identifying the agent of a request\<close>

text \<open>
  The loop of \<open>find_parent_conversation\<close> over the backtrack depths. It returns the key under
  which the parent is stored and the parent; \<open>self.instances[agent_id]\<close> raises \<open>KeyError\<close>
  for a key that is not there.
\<close>

fun find_parent_loop ::
  "pylib \<Rightarrow> tracker \<Rightarrow> message list \<Rightarrow> string \<Rightarrow> nat list \<Rightarrow>
     py_error + (string \<times> agent_instance) option" where
  "find_parent_loop L t messages sph [] = Inr None"
| "find_parent_loop L t messages sph (backtrack # deeper) =
     (case map_of (fingerprint_to_agent t)
             (compute_conversation_fingerprint L (take (length messages - backtrack) messages)) of
        None \<Rightarrow> find_parent_loop L t messages sph deeper
      | Some key \<Rightarrow>
          (case map_of (instances t) key of
             None \<Rightarrow> Inl KeyError
           | Some agent \<Rightarrow>
               if system_prompt_hash agent = sph then Inr (Some (key, agent))
               else find_parent_loop L t messages sph deeper))"

definition find_parent_conversation ::
  "pylib \<Rightarrow> tracker \<Rightarrow> message list \<Rightarrow> string \<Rightarrow> py_error + (string \<times> agent_instance) option" where
  "find_parent_conversation L t messages sph =
     (if length messages \<le> 1 then Inr None
      else find_parent_loop L t messages sph [1 ..< Suc (min (length messages - 1) 5)])"

text \<open>
  Both spawn branches of \<open>identify_or_create_agent\<close> end alike: when the parent is a stored
  agent, the new agent is added to its \<open>child_agent_ids\<close>, once.
\<close>

definition link_to_parent ::
  "(string \<times> agent_instance) list \<Rightarrow> string \<Rightarrow> string \<Rightarrow> (string \<times> agent_instance) list" where
  "link_to_parent insts parent_id child_id =
     (if parent_id = [] then insts
      else (case map_of insts parent_id of
              None \<Rightarrow> insts
            | Some parent \<Rightarrow>
                if child_id \<in> set (child_agent_ids parent) then insts
                else AList.update parent_id
                       (parent\<lparr>child_agent_ids := child_agent_ids parent @ [child_id]\<rparr>) insts))"

text \<open>The task or tool call that spawned an agent with this first message, and its agent.\<close>

definition detect_spawn :: "pylib \<Rightarrow> tracker \<Rightarrow> string \<Rightarrow> (string \<times> string) option" where
  "detect_spawn L t first_user_msg =
     (case detect_task_spawn L t first_user_msg of
        Some spawning_info \<Rightarrow> Some (tp_task_id spawning_info, tp_parent_agent_id spawning_info)
      | None \<Rightarrow>
          (case detect_tool_spawn L t first_user_msg of
             Some tool_spawn_info \<Rightarrow>
               Some (ci_tool_use_id tool_spawn_info, ci_parent_agent_id tool_spawn_info)
           | None \<Rightarrow> None))"

text \<open>What the replay and the continuation branch do to the agent they found.\<close>

definition append_request :: "agent_instance \<Rightarrow> int \<Rightarrow> nat \<Rightarrow> string \<Rightarrow> agent_instance" where
  "append_request agent request_id n timestamp =
     agent\<lparr>requests := requests agent @ [request_id],
           last_request_id := request_id,
           message_count_history := message_count_history agent @ [n],
           timestamps := timestamps agent @ [timestamp]\<rparr>"

definition new_agent ::
  "pylib \<Rightarrow> tracker \<Rightarrow> int \<Rightarrow> message list \<Rightarrow> string \<Rightarrow> string \<Rightarrow> string \<Rightarrow> string \<Rightarrow> tracker" where
  "new_agent L t request_id messages timestamp sph fingerprint new_id =
     (let first_user_msg = extract_first_user_message messages;
          spawn = detect_spawn L t first_user_msg;
          agent =
            \<lparr>agent_id = new_id,
             system_prompt_hash = sph,
             conversation_fingerprint = fingerprint,
             requests = [request_id],
             first_request_id = request_id,
             last_request_id = request_id,
             message_count_history = [length messages],
             spawned_by_task_id = map_option fst spawn,
             parent_agent_id = map_option snd spawn,
             first_user_message = first_user_msg,
             child_agent_ids = [],
             tool_uses = [],
             tool_results = [],
             timestamps = [timestamp]\<rparr>;
          insts = (case spawn of
                     None \<Rightarrow> instances t
                   | Some (task_id, parent_id) \<Rightarrow> link_to_parent (instances t) parent_id new_id)
      in t\<lparr>agent_counter := Suc (agent_counter t),
           instances := AList.update new_id agent insts,
           fingerprint_to_agent := AList.update fingerprint new_id (fingerprint_to_agent t),
           request_to_agent := AList.update request_id new_id (request_to_agent t)\<rparr>)"

text \<open>The replay branch: the request is appended to the agent that has this fingerprint.\<close>

definition attribute_replay ::
  "tracker \<Rightarrow> string \<Rightarrow> agent_instance \<Rightarrow> int \<Rightarrow> nat \<Rightarrow> string \<Rightarrow> tracker" where
  "attribute_replay t key agent request_id n timestamp =
     t\<lparr>instances := AList.update key (append_request agent request_id n timestamp) (instances t),
       request_to_agent := AList.update request_id key (request_to_agent t)\<rparr>"

text \<open>
  The continuation branch: the request is appended to the parent, which takes the new
  fingerprint, and the new fingerprint is registered for the parent's \<open>agent_id\<close>.
\<close>

definition attribute_continuation ::
  "tracker \<Rightarrow> string \<Rightarrow> agent_instance \<Rightarrow> int \<Rightarrow> nat \<Rightarrow> string \<Rightarrow> string \<Rightarrow> tracker" where
  "attribute_continuation t key parent_agent request_id n timestamp fingerprint =
     t\<lparr>instances :=
          AList.update key
            ((append_request parent_agent request_id n timestamp)
               \<lparr>conversation_fingerprint := fingerprint\<rparr>)
            (instances t),
       fingerprint_to_agent :=
          AList.update fingerprint (agent_id parent_agent) (fingerprint_to_agent t),
       request_to_agent := AList.update request_id (agent_id parent_agent) (request_to_agent t)\<rparr>"

text \<open>
  \<open>identify_or_create_agent\<close> returns the new state and the key of the agent it returns.
\<close>

definition identify_or_create_agent ::
  "pylib \<Rightarrow> tracker \<Rightarrow> int \<Rightarrow> body \<Rightarrow> string \<Rightarrow> py_error + (tracker \<times> string)" where
  "identify_or_create_agent L t request_id bdy timestamp =
     (let messages = b_messages bdy;
          sph = compute_system_prompt_hash L (b_system bdy);
          fingerprint = compute_conversation_fingerprint L messages
      in (case map_of (fingerprint_to_agent t) fingerprint of
            Some key \<Rightarrow>
              (case map_of (instances t) key of
                 None \<Rightarrow> Inl KeyError
               | Some agent \<Rightarrow>
                   Inr (attribute_replay t key agent request_id (length messages) timestamp, key))
          | None \<Rightarrow>
              (case find_parent_conversation L t messages sph of
                 Inl err \<Rightarrow> Inl err
               | Inr (Some (key, parent_agent)) \<Rightarrow>
                   Inr (attribute_continuation t key parent_agent request_id (length messages)
                          timestamp fingerprint,
                        key)
               | Inr None \<Rightarrow>
                   (let new_id = ''agent_'' @ str_of_nat (agent_counter t)
                    in Inr (new_agent L t request_id messages timestamp sph fingerprint new_id,
                            new_id)))))"

subsection \<open>Tool uses and tool results\<close>

text \<open>
  The second half of \<open>track_tool_use\<close>: a \<open>Task\<close> prompt is stored in \<open>task_prompts\<close>, a
  \<open>Bash\<close> command in \<open>tool_command_index\<close>, each under its hash and only when the hash is new.
\<close>

definition register_spawn_hints ::
  "pylib \<Rightarrow> tracker \<Rightarrow> int \<Rightarrow> string \<Rightarrow> string option \<Rightarrow> tool_input \<Rightarrow> string \<Rightarrow> tracker" where
  "register_spawn_hints L t request_id tool_use_id tool_name inp agent_key =
     (if tool_name = Some ''Task'' then
        (let prompt = or_empty (ti_prompt inp);
             prompt_hash = compute_hash L prompt 16
         in if prompt \<noteq> [] \<and> map_of (task_prompts t) prompt_hash = None then
              t\<lparr>task_prompts :=
                  AList.update prompt_hash
                    \<lparr>tp_task_id = tool_use_id, tp_parent_agent_id = agent_key,
                     tp_request_id = Some request_id,
                     tp_subagent_type = Some (or_empty (ti_subagent_type inp)),
                     tp_prompt = Some (take 200 prompt)\<rparr>
                    (task_prompts t)\<rparr>
            else t)
      else if tool_name = Some ''Bash'' then
        (let command = or_empty (ti_command inp);
             normalized_command = normalize_command command;
             command_hash = compute_hash L normalized_command 16
         in if command \<noteq> [] \<and> map_of (tool_command_index t) command_hash = None then
              t\<lparr>tool_command_index :=
                  AList.update command_hash
                    \<lparr>ci_tool_use_id = tool_use_id, ci_parent_agent_id = agent_key,
                     ci_request_id = request_id, ci_tool_name = tool_name,
                     ci_command = command, ci_normalized_command = normalized_command\<rparr>
                    (tool_command_index t)\<rparr>
            else t)
      else t)"

text \<open>
  The first half of \<open>track_tool_use\<close>, guarded by \<open>tool_use_id not in self.tool_use_index\<close>.
\<close>

definition record_tool_use ::
  "tracker \<Rightarrow> int \<Rightarrow> string \<Rightarrow> string option \<Rightarrow> tool_input \<Rightarrow> string \<Rightarrow> string \<Rightarrow>
     py_error + tracker" where
  "record_tool_use t request_id tool_use_id tool_name inp agent_key timestamp =
     (if map_of (tool_use_index t) tool_use_id = None then
        (case map_of (instances t) agent_key of
           None \<Rightarrow> Inl KeyError
         | Some agent \<Rightarrow>
             Inr (t\<lparr>tool_use_index :=
                       AList.update tool_use_id
                         \<lparr>ui_tool_use_id = tool_use_id, ui_tool_name = tool_name,
                          ui_agent_id = agent_key, ui_request_id = request_id,
                          ui_timestamp = timestamp, ui_input = inp\<rparr>
                         (tool_use_index t),
                    instances :=
                       AList.update agent_key
                         (agent\<lparr>tool_uses := tool_uses agent @
                            [\<lparr>tus_tool_use_id = tool_use_id, tus_tool_name = tool_name,
                              tus_request_id = request_id, tus_timestamp = timestamp\<rparr>]\<rparr>)
                         (instances t)\<rparr>))
      else Inr t)"

definition track_tool_use :: "pylib \<Rightarrow> tracker \<Rightarrow> int \<Rightarrow> block \<Rightarrow> string \<Rightarrow> py_error + tracker" where
  "track_tool_use L t request_id tool_use_block timestamp =
     (case tool_use_block of
        ToolUseBlock (Some tool_use_id) tool_name inp \<Rightarrow>
          if tool_use_id = [] then Inr t
          else (case map_of (request_to_agent t) request_id of
                  None \<Rightarrow> Inr t
                | Some agent_key \<Rightarrow>
                    if agent_key = [] then Inr t
                    else (case record_tool_use t request_id tool_use_id tool_name inp agent_key
                                 timestamp of
                            Inl err \<Rightarrow> Inl err
                          | Inr t1 \<Rightarrow>
                              Inr (register_spawn_hints L t1 request_id tool_use_id tool_name inp
                                     agent_key)))
      | _ \<Rightarrow> Inr t)"

text \<open>
  \<open>track_tool_result\<close> has no guard: it writes \<open>tool_result_index\<close>, appends to the agent's
  \<open>tool_results\<close> and, when the tool use is known, appends a \<open>tool_result\<close> edge.
\<close>

definition record_tool_result ::
  "tracker \<Rightarrow> int \<Rightarrow> string \<Rightarrow> bool \<Rightarrow> string \<Rightarrow> string \<Rightarrow> py_error + tracker" where
  "record_tool_result t request_id tool_use_id is_error agent_key timestamp =
     (case map_of (instances t) agent_key of
        None \<Rightarrow> Inl KeyError
      | Some agent \<Rightarrow>
          Inr (t\<lparr>tool_result_index :=
                    AList.update tool_use_id
                      \<lparr>ri_tool_use_id = tool_use_id, ri_agent_id = agent_key,
                       ri_request_id = request_id, ri_timestamp = timestamp,
                       ri_is_error = is_error\<rparr>
                      (tool_result_index t),
                 instances :=
                    AList.update agent_key
                      (agent\<lparr>tool_results := tool_results agent @
                         [\<lparr>trs_tool_use_id = tool_use_id, trs_request_id = request_id,
                           trs_timestamp = timestamp, trs_is_error = is_error\<rparr>]\<rparr>)
                      (instances t),
                 workflow_edges :=
                    workflow_edges t @
                    (case map_of (tool_use_index t) tool_use_id of
                       None \<Rightarrow> []
                     | Some tool_use_info \<Rightarrow>
                         [\<lparr>e_type = ''tool_result'',
                           e_source_agent_id = ui_agent_id tool_use_info,
                           e_target_agent_id = agent_key,
                           e_source_request_id = ui_request_id tool_use_info,
                           e_target_request_id = request_id,
                           e_confidence = 1,
                           e_tool_use_id = Some tool_use_id,
                           e_tool_name = ui_tool_name tool_use_info,
                           e_is_error = Some is_error,
                           e_content_hash = None,
                           e_time_gap_ms = None\<rparr>])\<rparr>))"

definition track_tool_result :: "pylib \<Rightarrow> tracker \<Rightarrow> int \<Rightarrow> block \<Rightarrow> string \<Rightarrow> py_error + tracker" where
  "track_tool_result L t request_id tool_result_block timestamp =
     (case tool_result_block of
        ToolResultBlock (Some tool_use_id) result_content is_error \<Rightarrow>
          if tool_use_id = [] then Inr t
          else (case map_of (request_to_agent t) request_id of
                  None \<Rightarrow> Inr t
                | Some agent_key \<Rightarrow>
                    if agent_key = [] then Inr t
                    else record_tool_result t request_id tool_use_id is_error agent_key timestamp)
      | _ \<Rightarrow> Inr t)"

subsection \<open>Content reuse\<close>

text \<open>The non-empty texts of the \<open>text\<close> blocks of a content list.\<close>

fun text_parts :: "block list \<Rightarrow> string list" where
  "text_parts [] = []"
| "text_parts (TextBlock text # bs) =
     (if or_empty text \<noteq> [] then or_empty text # text_parts bs else text_parts bs)"
| "text_parts (b # bs) = text_parts bs"

definition track_response_content :: "pylib \<Rightarrow> tracker \<Rightarrow> int \<Rightarrow> block list \<Rightarrow> string \<Rightarrow> tracker" where
  "track_response_content L t request_id blocks timestamp =
     (case map_of (request_to_agent t) request_id of
        None \<Rightarrow> t
      | Some agent_key \<Rightarrow>
          if agent_key = [] \<or> text_parts blocks = [] then t
          else (let normalized = normalize_text (join [newline] (text_parts blocks)) 200;
                    content_hash = compute_hash L normalized 16;
                    seen = (case map_of (response_content_index t) content_hash of
                              None \<Rightarrow> []
                            | Some infos \<Rightarrow> infos)
                in t\<lparr>response_content_index :=
                       AList.update content_hash
                         (seen @ [\<lparr>si_agent_id = agent_key, si_request_id = request_id,
                                   si_timestamp = timestamp, si_content_hash = content_hash\<rparr>])
                         (response_content_index t)\<rparr>))"

text \<open>
  The edges that one user text adds in \<open>track_request_content\<close>: one for every indexed response
  with the same hash, an earlier request and another agent.
\<close>

definition reuse_edges :: "pylib \<Rightarrow> tracker \<Rightarrow> int \<Rightarrow> string \<Rightarrow> string \<Rightarrow> workflow_edge list" where
  "reuse_edges L t request_id agent_key text =
     (let content_hash = compute_hash L (normalize_text text 200) 16
      in (case map_of (response_content_index t) content_hash of
            None \<Rightarrow> []
          | Some infos \<Rightarrow>
              map (\<lambda>source_info.
                     \<lparr>e_type = ''content_reuse'',
                      e_source_agent_id = si_agent_id source_info,
                      e_target_agent_id = agent_key,
                      e_source_request_id = si_request_id source_info,
                      e_target_request_id = request_id,
                      e_confidence = 85 / 100,
                      e_tool_use_id = None,
                      e_tool_name = None,
                      e_is_error = None,
                      e_content_hash = Some content_hash,
                      e_time_gap_ms = None\<rparr>)
                  (filter (\<lambda>source_info. si_request_id source_info < request_id \<and>
                                          si_agent_id source_info \<noteq> agent_key) infos)))"

fun block_reuse_edges :: "pylib \<Rightarrow> tracker \<Rightarrow> int \<Rightarrow> string \<Rightarrow> block \<Rightarrow> workflow_edge list" where
  "block_reuse_edges L t request_id agent_key (TextBlock text) =
     (if or_empty text \<noteq> [] then reuse_edges L t request_id agent_key (or_empty text) else [])"
| "block_reuse_edges L t request_id agent_key b = []"

definition message_reuse_edges ::
  "pylib \<Rightarrow> tracker \<Rightarrow> int \<Rightarrow> string \<Rightarrow> message \<Rightarrow> workflow_edge list" where
  "message_reuse_edges L t request_id agent_key msg =
     (if role msg \<noteq> Some ''user'' then []
      else (case content msg of
              NoContent \<Rightarrow> reuse_edges L t request_id agent_key []
            | StrContent s \<Rightarrow> reuse_edges L t request_id agent_key s
            | ListContent bs \<Rightarrow> concat (map (block_reuse_edges L t request_id agent_key) bs)
            | OtherContent \<Rightarrow> []))"

definition track_request_content :: "pylib \<Rightarrow> tracker \<Rightarrow> int \<Rightarrow> message list \<Rightarrow> string \<Rightarrow> tracker" where
  "track_request_content L t request_id messages timestamp =
     (case map_of (request_to_agent t) request_id of
        None \<Rightarrow> t
      | Some agent_key \<Rightarrow>
          if agent_key = [] then t
          else t\<lparr>workflow_edges :=
                   workflow_edges t @
                   concat (map (message_reuse_edges L t request_id agent_key) messages)\<rparr>)"

subsection \<open>Request sequence edges and the workflow DAG\<close>

text \<open>
  \<open>int(seconds * 1000)\<close> rounds towards zero. The source computes it in floating point from
  \<open>total_seconds()\<close>; the model computes it exactly from the microseconds.
\<close>

definition ms_of_micros :: "int \<Rightarrow> int" where
  "ms_of_micros d = (if 0 \<le> d then d div 1000 else - ((- d) div 1000))"

text \<open>
  The time gap of two consecutive requests. A timestamp that does not parse gives no gap
  (\<open>ValueError\<close> is caught); the \<open>TypeError\<close> of subtracting an aware and a naive datetime is
  not caught.
\<close>

definition time_gap_ms :: "pylib \<Rightarrow> string option \<Rightarrow> string option \<Rightarrow> py_error + int option" where
  "time_gap_ms L source_time target_time =
     (if truthy source_time \<and> truthy target_time then
        (case fromisoformat L (replace_Z (or_empty source_time)) of
           None \<Rightarrow> Inr None
         | Some source_dt \<Rightarrow>
             (case fromisoformat L (replace_Z (or_empty target_time)) of
                None \<Rightarrow> Inr None
              | Some target_dt \<Rightarrow>
                  (case dt_diff_micros target_dt source_dt of
                     Inl err \<Rightarrow> Inl err
                   | Inr d \<Rightarrow> Inr (Some (ms_of_micros d)))))
      else Inr None)"

fun pair_edges :: "pylib \<Rightarrow> string \<Rightarrow> (int \<times> string option) list \<Rightarrow> py_error + workflow_edge list" where
  "pair_edges L agent_key (src # tgt # rest) =
     (case time_gap_ms L (snd src) (snd tgt) of
        Inl err \<Rightarrow> Inl err
      | Inr gap \<Rightarrow>
          (case pair_edges L agent_key (tgt # rest) of
             Inl err \<Rightarrow> Inl err
           | Inr es \<Rightarrow>
               Inr (\<lparr>e_type = ''request_sequence'',
                     e_source_agent_id = agent_key,
                     e_target_agent_id = agent_key,
                     e_source_request_id = fst src,
                     e_target_request_id = fst tgt,
                     e_confidence = 1,
                     e_tool_use_id = None,
                     e_tool_name = None,
                     e_is_error = None,
                     e_content_hash = None,
                     e_time_gap_ms = gap\<rparr> # es)))"
| "pair_edges L agent_key short = Inr []"

definition request_times :: "agent_instance \<Rightarrow> (int \<times> string option) list" where
  "request_times agent =
     map (\<lambda>i. (requests agent ! i,
               if i < length (timestamps agent) then Some (timestamps agent ! i) else None))
         [0 ..< length (requests agent)]"

fun all_sequence_edges ::
  "pylib \<Rightarrow> (string \<times> agent_instance) list \<Rightarrow> py_error + workflow_edge list" where
  "all_sequence_edges L [] = Inr []"
| "all_sequence_edges L ((agent_key, agent) # rest) =
     (case (if length (requests agent) < 2 then Inr []
            else pair_edges L agent_key (request_times agent)) of
        Inl err \<Rightarrow> Inl err
      | Inr es \<Rightarrow>
          (case all_sequence_edges L rest of
             Inl err \<Rightarrow> Inl err
           | Inr es' \<Rightarrow> Inr (es @ es')))"

text \<open>\<open>build_request_sequence_edges\<close> appends to \<open>self.workflow_edges\<close>.\<close>

definition build_request_sequence_edges :: "pylib \<Rightarrow> tracker \<Rightarrow> py_error + tracker" where
  "build_request_sequence_edges L t =
     (case all_sequence_edges L (instances t) of
        Inl err \<Rightarrow> Inl err
      | Inr es \<Rightarrow> Inr (t\<lparr>workflow_edges := workflow_edges t @ es\<rparr>))"

record dag_node =
  n_id :: string
  n_agent_id :: string
  n_agent_type :: string
  n_parent_agent_id :: "string option"
  n_child_agent_ids :: "string list"
  n_spawned_by_task_id :: "string option"
  n_request_count :: nat
  n_tool_use_count :: nat
  n_tool_result_count :: nat
  n_first_timestamp :: "string option"
  n_last_timestamp :: "string option"
  n_is_root :: bool
  n_is_leaf :: bool

record spawn_edge =
  se_spawn_method :: string
  se_source_agent_id :: string
  se_source_request_id :: "int option"
  se_target_agent_id :: string
  se_spawned_by_task_id :: "string option"
  se_spawned_by_tool_use_id :: "string option"
  se_confidence :: rat
  se_tool_name :: "string option"
  se_command_hash :: "string option"

datatype dag_edge = SpawnEdge spawn_edge | WorkflowEdge workflow_edge

fun dag_edge_type :: "dag_edge \<Rightarrow> string" where
  "dag_edge_type (SpawnEdge e) = ''subagent_spawn''"
| "dag_edge_type (WorkflowEdge e) = e_type e"

record dag_metrics =
  total_agents :: nat
  root_agents :: nat
  leaf_agents :: nat
  total_edges :: nat
  spawn_edges :: nat
  tool_result_edges :: nat
  content_reuse_edges :: nat
  request_sequence_edges :: nat

record workflow_dag =
  dag_nodes :: "dag_node list"
  dag_edges :: "dag_edge list"
  dag_metrics :: dag_metrics
  dag_root_agent_ids :: "string list"

definition dag_node_of :: "string \<Rightarrow> agent_instance \<Rightarrow> dag_node" where
  "dag_node_of agent_key agent =
     \<lparr>n_id = agent_key,
      n_agent_id = agent_key,
      n_agent_type = system_prompt_hash agent,
      n_parent_agent_id = parent_agent_id agent,
      n_child_agent_ids = child_agent_ids agent,
      n_spawned_by_task_id = spawned_by_task_id agent,
      n_request_count = length (requests agent),
      n_tool_use_count = length (tool_uses agent),
      n_tool_result_count = length (tool_results agent),
      n_first_timestamp = (if timestamps agent = [] then None else Some (hd (timestamps agent))),
      n_last_timestamp = (if timestamps agent = [] then None else Some (last (timestamps agent))),
      n_is_root = (parent_agent_id agent = None),
      n_is_leaf = (child_agent_ids agent = [])\<rparr>"

text \<open>The \<open>subagent_spawn\<close> edge of an agent that has a parent.\<close>

definition spawn_edge_of :: "tracker \<Rightarrow> string \<Rightarrow> agent_instance \<Rightarrow> spawn_edge option" where
  "spawn_edge_of t agent_key agent =
     (if truthy (parent_agent_id agent) then
        (let spawned_by = spawned_by_task_id agent;
             tool_info = (if truthy spawned_by then map_of (tool_use_index t) (or_empty spawned_by)
                          else None);
             tool_name = (case tool_info of None \<Rightarrow> None | Some info \<Rightarrow> ui_tool_name info);
             by_tool_call = (tool_info \<noteq> None \<and> tool_name \<noteq> Some ''Task'');
             command_hash =
               (if by_tool_call then
                  map_option fst
                    (find (\<lambda>(cmd_hash, cmd). ci_tool_use_id cmd = or_empty spawned_by)
                       (tool_command_index t))
                else None)
         in Some \<lparr>se_spawn_method = (if by_tool_call then ''tool_call'' else ''task''),
                  se_source_agent_id = or_empty (parent_agent_id agent),
                  se_source_request_id = map_option ui_request_id tool_info,
                  se_target_agent_id = agent_key,
                  se_spawned_by_task_id = (if by_tool_call then None else spawned_by),
                  se_spawned_by_tool_use_id = spawned_by,
                  se_confidence = 95 / 100,
                  se_tool_name = (if truthy tool_name then tool_name else None),
                  se_command_hash = (if truthy command_hash then command_hash else None)\<rparr>)
      else None)"

text \<open>
  \<open>build_workflow_dag\<close> returns the DAG and leaves the tracker changed: it calls
  \<open>build_request_sequence_edges\<close>.
\<close>

definition build_workflow_dag :: "pylib \<Rightarrow> tracker \<Rightarrow> py_error + (tracker \<times> workflow_dag)" where
  "build_workflow_dag L t =
     (let nodes = map (\<lambda>(agent_key, agent). dag_node_of agent_key agent) (instances t);
          spawns = List.map_filter (\<lambda>(agent_key, agent). spawn_edge_of t agent_key agent)
                     (instances t)
      in (case build_request_sequence_edges L t of
            Inl err \<Rightarrow> Inl err
          | Inr t' \<Rightarrow>
              (let edges = map SpawnEdge spawns @ map WorkflowEdge (workflow_edges t');
                   count = (\<lambda>ty. length (filter (\<lambda>e. dag_edge_type e = ty) edges))
               in Inr (t',
                       \<lparr>dag_nodes = nodes,
                        dag_edges = edges,
                        dag_metrics =
                          \<lparr>total_agents = length nodes,
                           root_agents = length (filter n_is_root nodes),
                           leaf_agents = length (filter n_is_leaf nodes),
                           total_edges = length edges,
                           spawn_edges = count ''subagent_spawn'',
                           tool_result_edges = count ''tool_result'',
                           content_reuse_edges = count ''content_reuse'',
                           request_sequence_edges = count ''request_sequence''\<rparr>,
                        dag_root_agent_ids = map n_id (filter n_is_root nodes)\<rparr>))))"

subsection \<open>Processing a log stream\<close>

text \<open>
  The calls that \<open>process_log_entry\<close> and \<open>export_to_json\<close> make on the tracker, one event per
  call, in the order in which the log is processed.
\<close>

datatype event =
    Identify int body string
  | TrackToolUse int block string
  | TrackToolResult int block string
  | RegisterTaskPrompt string string string
  | TrackRequestContent int "message list" string
  | TrackResponseContent int "block list" string
  | BuildWorkflowDag

fun step :: "pylib \<Rightarrow> tracker \<Rightarrow> event \<Rightarrow> py_error + tracker" where
  "step L t (Identify request_id bdy timestamp) =
     map_sum id fst (identify_or_create_agent L t request_id bdy timestamp)"
| "step L t (TrackToolUse request_id blk timestamp) = track_tool_use L t request_id blk timestamp"
| "step L t (TrackToolResult request_id blk timestamp) =
     track_tool_result L t request_id blk timestamp"
| "step L t (RegisterTaskPrompt task_id prompt agent_key) =
     Inr (register_task_prompt L t task_id prompt agent_key)"
| "step L t (TrackRequestContent request_id messages timestamp) =
     Inr (track_request_content L t request_id messages timestamp)"
| "step L t (TrackResponseContent request_id blocks timestamp) =
     Inr (track_response_content L t request_id blocks timestamp)"
| "step L t BuildWorkflowDag = map_sum id fst (build_workflow_dag L t)"

fun run :: "pylib \<Rightarrow> tracker \<Rightarrow> event list \<Rightarrow> py_error + tracker" where
  "run L t [] = Inr t"
| "run L t (e # es) = (case step L t e of Inl err \<Rightarrow> Inl err | Inr t' \<Rightarrow> run L t' es)"

text \<open>The message counts of the requests of a stream, in order.\<close>

fun message_counts :: "event list \<Rightarrow> nat list" where
  "message_counts [] = []"
| "message_counts (Identify request_id bdy timestamp # es) =
     length (b_messages bdy) # message_counts es"
| "message_counts (e # es) = message_counts es"

text \<open>
  The keys the tracker holds are consistent: every agent named by \<open>fingerprint_to_agent\<close> or
  \<open>request_to_agent\<close> is stored in \<open>instances\<close>, under its own \<open>agent_id\<close>.
\<close>

definition consistent :: "tracker \<Rightarrow> bool" where
  "consistent t \<longleftrightarrow>
     (\<forall>fp key. map_of (fingerprint_to_agent t) fp = Some key \<longrightarrow> map_of (instances t) key \<noteq> None) \<and>
     (\<forall>r key. map_of (request_to_agent t) r = Some key \<longrightarrow> map_of (instances t) key \<noteq> None) \<and>
     (\<forall>key agent. map_of (instances t) key = Some agent \<longrightarrow> agent_id agent = key)"

subsection \<open>Relations between tracker states\<close>

text \<open>
  What every call but \<open>identify_or_create_agent\<close> leaves alone: the fingerprint and request
  maps, the agent counter, the stored keys, and each agent's \<open>agent_id\<close> and
  \<open>message_count_history\<close>.
\<close>

definition tracking_step :: "tracker \<Rightarrow> tracker \<Rightarrow> bool" where
  "tracking_step t t' \<longleftrightarrow>
     fingerprint_to_agent t' = fingerprint_to_agent t \<and>
     request_to_agent t' = request_to_agent t \<and>
     agent_counter t' = agent_counter t \<and>
     map fst (instances t') = map fst (instances t) \<and>
     (\<forall>k a'. map_of (instances t') k = Some a' \<longrightarrow>
        (\<exists>a. map_of (instances t) k = Some a \<and> agent_id a' = agent_id a \<and>
             message_count_history a' = message_count_history a))"


text \<open>
  The keys of \<open>instances\<close> are the names \<open>agent_i\<close> for numbers \<open>i\<close> below the agent counter,
  so the name of a new agent is not in use.
\<close>

definition keys_numbered :: "tracker \<Rightarrow> bool" where
  "keys_numbered t \<longleftrightarrow>
     (\<forall>k a. map_of (instances t) k = Some a \<longrightarrow>
        (\<exists>i<agent_counter t. k = ''agent_'' @ str_of_nat i))"

section \<open>The entity deduplicator (entity\_deduplicator.py)\<close>












section \<open>The workflow graph (workflow\_graph.py)\<close>

text \<open>
  A log entry as the graph builder reads it: \<open>log.get('timestamp')\<close> (\<open>None\<close> when the key is
  absent), the request messages and the content blocks of the response. The other keys of an
  entry are only copied into the display attributes of its node (agent type, model, duration,
  token counts, ...) and take no part in sessions or edges; they are left out, and so are
  those attributes of the node.
\<close>

record log_entry =
  l_timestamp :: "string option"
  l_messages :: "message list"
  l_response_content :: "block list"

datatype edge_metadata =
    ToolMeta string "string option" bool
  | SpawnMeta string "string option" "string option" rat string
  | ReuseMeta string string

record graph_edge =
  g_type :: string
  g_source :: nat
  g_target :: nat
  g_metadata :: edge_metadata
  g_confidence :: rat
  g_session_id :: "nat option"





subsection \<open>Sessions\<close>



subsection \<open>Tool results\<close>







subsection \<open>Subagent spawns\<close>

text \<open>\<open>hash_content(text, length)\<close>: the whole digest of the normalised prefix.\<close>

definition hash_content :: "pylib \<Rightarrow> string \<Rightarrow> nat \<Rightarrow> string" where
  "hash_content L text n = (if text = [] then [] else sha256_hexdigest L (normalize_text text n))"

record task_spawn =
  sp_parent_idx :: nat
  sp_subagent_type :: string
  sp_task_tool_id :: "string option"
  sp_prompt :: string
  sp_prompt_hash :: "string option"
  sp_timestamp :: "string option"

fun block_task_spawns :: "pylib \<Rightarrow> nat \<Rightarrow> log_entry \<Rightarrow> block \<Rightarrow> task_spawn list" where
  "block_task_spawns L idx entry (ToolUseBlock tool_use_id tool_name inp) =
     (if tool_name = Some ''Task'' \<and> truthy (ti_subagent_type inp) then
        [\<lparr>sp_parent_idx = idx,
          sp_subagent_type = or_empty (ti_subagent_type inp),
          sp_task_tool_id = tool_use_id,
          sp_prompt = or_empty (ti_prompt inp),
          sp_prompt_hash = (if or_empty (ti_prompt inp) \<noteq> []
                            then Some (hash_content L (or_empty (ti_prompt inp)) 300) else None),
          sp_timestamp = l_timestamp entry\<rparr>]
      else [])"
| "block_task_spawns L idx entry b = []"

definition task_spawns :: "pylib \<Rightarrow> log_entry list \<Rightarrow> task_spawn list" where
  "task_spawns L logs =
     concat (map (\<lambda>(idx, entry). concat (map (block_task_spawns L idx entry) (l_response_content entry)))
               (enumerate 0 logs))"

text \<open>\<open>msg_hash\<close> of the first request message of an entry, \<open>None\<close> when there is none.\<close>

fun first_text_hash :: "pylib \<Rightarrow> block list \<Rightarrow> string option" where
  "first_text_hash L [] = None"
| "first_text_hash L (TextBlock text # bs) = Some (hash_content L (or_empty text) 300)"
| "first_text_hash L (b # bs) = first_text_hash L bs"

definition first_message_hash :: "pylib \<Rightarrow> log_entry \<Rightarrow> string option" where
  "first_message_hash L entry =
     (case l_messages entry of
        [] \<Rightarrow> None
      | first_msg # rest \<Rightarrow>
          (case content first_msg of
             NoContent \<Rightarrow> Some (hash_content L [] 300)
           | StrContent s \<Rightarrow> Some (hash_content L s 300)
           | ListContent bs \<Rightarrow> first_text_hash L bs
           | OtherContent \<Rightarrow> None))"

text \<open>
  \<open>datetime.fromisoformat(timestamp.replace('Z', '+00:00'))\<close>, outside any \<open>try\<close>: \<open>None\<close> has no
  \<open>replace\<close> (\<open>AttributeError\<close>), and a string that does not parse raises \<open>ValueError\<close>.
\<close>

definition parse_timestamp :: "pylib \<Rightarrow> string option \<Rightarrow> py_error + datetime" where
  "parse_timestamp L timestamp =
     (case timestamp of
        None \<Rightarrow> Inl AttributeError
      | Some s \<Rightarrow> (case fromisoformat L (replace_Z s) of None \<Rightarrow> Inl ValueError | Some dt \<Rightarrow> Inr dt))"

text \<open>
  The forward search of one spawn over the entries after it: the first entry within the hour
  whose first message has the prompt hash, with its time difference in microseconds.
\<close>

fun find_spawn_match ::
  "pylib \<Rightarrow> datetime \<Rightarrow> string \<Rightarrow> (nat \<times> log_entry) list \<Rightarrow> py_error + (nat \<times> int) option" where
  "find_spawn_match L spawn_time prompt_hash [] = Inr None"
| "find_spawn_match L spawn_time prompt_hash ((idx, entry) # rest) =
     (case parse_timestamp L (l_timestamp entry) of
        Inl err \<Rightarrow> Inl err
      | Inr log_time \<Rightarrow>
          (case dt_diff_micros log_time spawn_time of
             Inl err \<Rightarrow> Inl err
           | Inr time_diff \<Rightarrow>
               if time_diff > 3600000000 then Inr None
               else if truthy (first_message_hash L entry) \<and>
                       first_message_hash L entry = Some prompt_hash \<and> 0 \<le> time_diff
               then Inr (Some (idx, time_diff))
               else find_spawn_match L spawn_time prompt_hash rest))"

fun match_spawns :: "pylib \<Rightarrow> log_entry list \<Rightarrow> task_spawn list \<Rightarrow> py_error + graph_edge list" where
  "match_spawns L logs [] = Inr []"
| "match_spawns L logs (spawn # spawns) =
     (case parse_timestamp L (sp_timestamp spawn) of
        Inl err \<Rightarrow> Inl err
      | Inr spawn_time \<Rightarrow>
          (case (if \<not> truthy (sp_prompt_hash spawn) then Inr None
                 else find_spawn_match L spawn_time (or_empty (sp_prompt_hash spawn))
                        (drop (Suc (sp_parent_idx spawn)) (enumerate 0 logs))) of
             Inl err \<Rightarrow> Inl err
           | Inr best \<Rightarrow>
               (case match_spawns L logs spawns of
                  Inl err \<Rightarrow> Inl err
                | Inr es \<Rightarrow>
                    Inr ((case best of
                            None \<Rightarrow> []
                          | Some (best_match, time_diff) \<Rightarrow>
                              [\<lparr>g_type = ''subagent_spawn'',
                                g_source = sp_parent_idx spawn,
                                g_target = best_match,
                                g_metadata =
                                  SpawnMeta (sp_subagent_type spawn) (sp_task_tool_id spawn)
                                    (sp_timestamp spawn) (of_int time_diff / 1000000)
                                    ''prompt_hash'',
                                g_confidence = 95 / 100,
                                g_session_id = None\<rparr>]) @ es))))"

definition detect_subagent_spawns :: "pylib \<Rightarrow> log_entry list \<Rightarrow> py_error + graph_edge list" where
  "detect_subagent_spawns L logs = match_spawns L logs (task_spawns L logs)"

subsection \<open>Content reuse in the graph\<close>

text \<open>\<open>response_hashes\<close>: for each response with text, its hash, its index and its preview.\<close>

definition response_hashes :: "pylib \<Rightarrow> log_entry list \<Rightarrow> (string \<times> nat \<times> string) list" where
  "response_hashes L logs =
     concat (map (\<lambda>(idx, entry).
                    (let text_content = join [newline] (text_parts (l_response_content entry));
                         content_hash = hash_content L text_content 200
                     in if text_content \<noteq> [] \<and> content_hash \<noteq> []
                        then [(content_hash, idx, replace_newlines (take 100 text_content))]
                        else []))
               (enumerate 0 logs))"





subsection \<open>Assembling the graph\<close>






section \<open>A library to run the examples\<close>

text \<open>
  The examples below need one concrete library. \<open>demo_digest\<close> is a 64-bit polynomial
  checksum printed as sixteen hexadecimal digits, lowest digit first; it stands for SHA-256,
  and like SHA-256 it gives different digests to the different strings the examples hash.
  \<open>demo_fromisoformat\<close> knows the timestamps the examples use; the messages of the examples
  hold no \<open>Command:\<close> marker, so no regular expression matches.
\<close>

definition hex_char :: "int \<Rightarrow> char" where
  "hex_char d = ''0123456789abcdef'' ! nat d"

fun hex_digits :: "nat \<Rightarrow> int \<Rightarrow> string" where
  "hex_digits 0 v = []"
| "hex_digits (Suc k) v = hex_char (v mod 16) # hex_digits k (v div 16)"

definition demo_checksum :: "string \<Rightarrow> int" where
  "demo_checksum s = foldl (\<lambda>a c. (a * 257 + of_char c + 1) mod 18446744073709551616) 7 s"

definition demo_digest :: "string \<Rightarrow> string" where
  "demo_digest s = hex_digits 16 (demo_checksum s)"

definition demo_fromisoformat :: "string \<Rightarrow> datetime option" where
  "demo_fromisoformat s =
     map_of [(''2024-01-01T10:00:00+00:00'', DateTime True 0),
             (''2024-01-01T10:01:00+00:00'', DateTime True 60000000),
             (''2024-01-01T10:02:00+00:00'', DateTime True 120000000),
             (''2024-01-01T11:00:00+00:00'', DateTime True 3600000000),
             (''2024-01-01T11:01:00+00:00'', DateTime True 3660000000)] s"

definition demo_lib :: pylib where
  "demo_lib =
     \<lparr>sha256_hexdigest = demo_digest,
      str_of_input = (\<lambda>i. or_empty (ti_prompt i) @ ''/'' @ or_empty (ti_subagent_type i) @ ''/'' @
                          or_empty (ti_command i)),
      str_of_json = (\<lambda>j. case j of JStr s \<Rightarrow> s | _ \<Rightarrow> ''json''),
      fromisoformat = demo_fromisoformat,
      re_search = (\<lambda>r s. None),
      re_match_start = (\<lambda>r s. None)\<rparr>"

subsection \<open>Example streams\<close>

definition user_text :: "string \<Rightarrow> message" where
  "user_text s = \<lparr>role = Some ''user'', content = StrContent s\<rparr>"

definition assistant_text :: "string \<Rightarrow> message" where
  "assistant_text s = \<lparr>role = Some ''assistant'', content = ListContent [TextBlock (Some s)]\<rparr>"

text \<open>
  The scenario of the specification: request 0 with the messages \<open>[user: hi]\<close>, request 1 with
  \<open>[user: hi, assistant: hello, user: hi]\<close> and the same system prompt.
\<close>

definition hi_body :: body where
  "hi_body = \<lparr>b_system = [Some ''You are a coding agent''], b_messages = [user_text ''hi'']\<rparr>"

definition hi_again_body :: body where
  "hi_again_body =
     \<lparr>b_system = [Some ''You are a coding agent''],
      b_messages = [user_text ''hi'', assistant_text ''hello'', user_text ''hi'']\<rparr>"

definition hi_stream :: "event list" where
  "hi_stream = [Identify 0 hi_body [], TrackResponseContent 0 [TextBlock (Some ''hello'')] []]"

definition grown_stream :: "event list" where
  "grown_stream = [Identify 0 hi_body [], Identify 1 hi_again_body []]"

text \<open>Request 2 replays the conversation state of request 0.\<close>

definition replay_stream :: "event list" where
  "replay_stream = [Identify 0 hi_body [], Identify 1 hi_again_body [], Identify 2 hi_body []]"

text \<open>The state a run ends in, and the history of one of its agents.\<close>

definition final_state :: "py_error + tracker \<Rightarrow> tracker" where
  "final_state r = (case r of Inl err \<Rightarrow> init_tracker | Inr t \<Rightarrow> t)"

definition agent_history :: "py_error + tracker \<Rightarrow> string \<Rightarrow> nat list option" where
  "agent_history r key =
     (case r of Inl err \<Rightarrow> None
      | Inr t \<Rightarrow> map_option message_count_history (map_of (instances t) key))"














text \<open>An entry whose response spawns a task, logged without a timestamp.\<close>

definition task_use :: block where
  "task_use =
     ToolUseBlock (Some ''toolu_02'') (Some ''Task'')
       \<lparr>ti_prompt = Some ''Investigate bug X'', ti_subagent_type = Some ''general-purpose'',
        ti_command = None, ti_extra = []\<rparr>"

definition task_entry :: "string option \<Rightarrow> log_entry" where
  "task_entry timestamp =
     \<lparr>l_timestamp = timestamp, l_messages = [user_text ''hi''], l_response_content = [task_use]\<rparr>"



subsection \<open>Predicates of the statements\<close>












section \<open>Properties\<close>

subsection \<open>The fingerprint ignores tool-use identifiers\<close>

lemma block_signature_same_but_ids:
  "block_same_but_ids b b' \<Longrightarrow> block_signature L b = block_signature L b'"
  by (induction b b' rule: block_same_but_ids.induct) simp_all

lemma map_filter_signature_same_but_ids:
  "list_all2 block_same_but_ids bs bs' \<Longrightarrow>
     List.map_filter (block_signature L) bs = List.map_filter (block_signature L) bs'"
proof (induction bs bs' rule: list_all2_induct)
  case Nil
  show ?case by simp
next
  case (Cons b bs b' bs')
  from Cons.hyps(1) have "block_signature L b = block_signature L b'"
    by (rule block_signature_same_but_ids)
  with Cons.IH show ?case by (simp add: List.map_filter_simps split: option.splits)
qed

lemma block_same_but_ids_refl: "block_same_but_ids b b"
  by (cases b) simp_all

lemma content_blocks_same_but_ids:
  "content_same_but_ids c c' \<Longrightarrow>
     list_all2 block_same_but_ids (content_blocks c) (content_blocks c')"
proof (induction c c' rule: content_same_but_ids.induct)
  case (1 bs bs')
  then show ?case by simp
qed (simp_all add: list_all2_refl block_same_but_ids_refl)

lemma message_signature_same_but_ids:
  assumes "message_same_but_ids m m'"
  shows "message_signature L m = message_signature L m'"
proof -
  from assms have r: "role m = role m'"
    and c: "content_same_but_ids (content m) (content m')"
    by (simp_all add: message_same_but_ids_def)
  from c have "list_all2 block_same_but_ids (content_blocks (content m)) (content_blocks (content m'))"
    by (rule content_blocks_same_but_ids)
  then have "List.map_filter (block_signature L) (content_blocks (content m)) =
      List.map_filter (block_signature L) (content_blocks (content m'))"
    by (rule map_filter_signature_same_but_ids)
  with r show ?thesis by (simp add: message_signature_def)
qed

lemma map_message_signature_same_but_ids:
  "list_all2 message_same_but_ids ms ms' \<Longrightarrow>
     map (message_signature L) ms = map (message_signature L) ms'"
  by (induction ms ms' rule: list_all2_induct)
     (simp_all add: message_signature_same_but_ids)

text \<open>
  C8. Two message lists that are identical except for the identifiers of their \<open>tool_use\<close>
  blocks and the reference identifiers of their \<open>tool_result\<close> blocks have the same
  conversation fingerprint.
\<close>

theorem fingerprint_ignores_tool_ids:
  assumes "messages_same_but_ids ms ms'"
  shows "compute_conversation_fingerprint L ms = compute_conversation_fingerprint L ms'"
proof -
  from assms have all2: "list_all2 message_same_but_ids ms ms'"
    by (simp add: messages_same_but_ids_def)
  then have "length ms = length ms'"
    by (rule list_all2_lengthD)
  then have empty: "ms = [] \<longleftrightarrow> ms' = []"
    by auto
  from all2 have "map (message_signature L) ms = map (message_signature L) ms'"
    by (rule map_message_signature_same_but_ids)
  with empty show ?thesis
    by (simp add: compute_conversation_fingerprint_def)
qed

theorem fingerprint_ignores_tool_ids_witness:
  "messages_same_but_ids
     [\<lparr>role = Some ''assistant'',
       content = ListContent [TextBlock (Some ''reading''),
         ToolUseBlock (Some ''toolu_01'') (Some ''Read'') empty_input]\<rparr>,
      \<lparr>role = Some ''user'',
       content = ListContent [ToolResultBlock (Some ''toolu_01'') (JStr ''ok'') False]\<rparr>]
     [\<lparr>role = Some ''assistant'',
       content = ListContent [TextBlock (Some ''reading''),
         ToolUseBlock (Some ''toolu_99'') (Some ''Read'') empty_input]\<rparr>,
      \<lparr>role = Some ''user'',
       content = ListContent [ToolResultBlock (Some ''toolu_99'') (JStr ''ok'') False]\<rparr>]
   \<and> compute_conversation_fingerprint demo_lib
     [\<lparr>role = Some ''assistant'',
       content = ListContent [TextBlock (Some ''reading''),
         ToolUseBlock (Some ''toolu_01'') (Some ''Read'') empty_input]\<rparr>,
      \<lparr>role = Some ''user'',
       content = ListContent [ToolResultBlock (Some ''toolu_01'') (JStr ''ok'') False]\<rparr>]
   = compute_conversation_fingerprint demo_lib
     [\<lparr>role = Some ''assistant'',
       content = ListContent [TextBlock (Some ''reading''),
         ToolUseBlock (Some ''toolu_99'') (Some ''Read'') empty_input]\<rparr>,
      \<lparr>role = Some ''user'',
       content = ListContent [ToolResultBlock (Some ''toolu_99'') (JStr ''ok'') False]\<rparr>]"
proof -
  have same: "messages_same_but_ids
     [\<lparr>role = Some ''assistant'',
       content = ListContent [TextBlock (Some ''reading''),
         ToolUseBlock (Some ''toolu_01'') (Some ''Read'') empty_input]\<rparr>,
      \<lparr>role = Some ''user'',
       content = ListContent [ToolResultBlock (Some ''toolu_01'') (JStr ''ok'') False]\<rparr>]
     [\<lparr>role = Some ''assistant'',
       content = ListContent [TextBlock (Some ''reading''),
         ToolUseBlock (Some ''toolu_99'') (Some ''Read'') empty_input]\<rparr>,
      \<lparr>role = Some ''user'',
       content = ListContent [ToolResultBlock (Some ''toolu_99'') (JStr ''ok'') False]\<rparr>]"
    by (simp add: messages_same_but_ids_def message_same_but_ids_def)
  from same fingerprint_ignores_tool_ids [OF same, of demo_lib] show ?thesis
    by (rule conjI)
qed

subsection \<open>Invariants of the tracker\<close>

lemma consistent_init: "consistent init_tracker"
  by (simp add: consistent_def init_tracker_def)

lemma link_to_parent_lookup:
  "map_of (link_to_parent insts p c) k =
     (case map_of insts k of
        None \<Rightarrow> None
      | Some a \<Rightarrow> Some (a\<lparr>child_agent_ids := child_agent_ids (the (map_of (link_to_parent insts p c) k))\<rparr>))"
  by (auto simp: link_to_parent_def update_conv' split: option.splits)

lemma link_to_parent_None:
  "map_of (link_to_parent insts p c) k = None \<longleftrightarrow> map_of insts k = None"
  by (subst link_to_parent_lookup) (simp split: option.splits)

lemma link_to_parent_Some:
  "map_of (link_to_parent insts p c) k = Some a \<Longrightarrow>
     \<exists>a0. map_of insts k = Some a0 \<and> a = a0\<lparr>child_agent_ids := child_agent_ids a\<rparr>"
  by (subst (asm) link_to_parent_lookup) (auto split: option.splits)

lemma find_parent_loop_Some:
  "find_parent_loop L t ms sph ks = Inr (Some (key, agent)) \<Longrightarrow>
     map_of (instances t) key = Some agent"
  by (induction ks) (auto split: option.splits if_splits)

lemma consistent_fingerprintD:
  assumes "consistent t" and "map_of (fingerprint_to_agent t) fp = Some key"
  shows "\<exists>agent. map_of (instances t) key = Some agent \<and> agent_id agent = key"
proof -
  from assms have "map_of (instances t) key \<noteq> None"
    unfolding consistent_def by blast
  then obtain agent where a: "map_of (instances t) key = Some agent"
    by blast
  with assms(1) have "agent_id agent = key"
    unfolding consistent_def by blast
  with a show ?thesis by blast
qed

lemma consistent_requestD:
  assumes "consistent t" and "map_of (request_to_agent t) r = Some key"
  shows "\<exists>agent. map_of (instances t) key = Some agent \<and> agent_id agent = key"
proof -
  from assms have "map_of (instances t) key \<noteq> None"
    unfolding consistent_def by blast
  then obtain agent where a: "map_of (instances t) key = Some agent"
    by blast
  with assms(1) have "agent_id agent = key"
    unfolding consistent_def by blast
  with a show ?thesis by blast
qed

lemma find_parent_loop_total:
  "consistent t \<Longrightarrow> \<exists>r. find_parent_loop L t ms sph ks = Inr r"
proof (induction ks)
  case Nil
  show ?case by simp
next
  case (Cons k ks)
  show ?case
  proof (cases "map_of (fingerprint_to_agent t)
      (compute_conversation_fingerprint L (take (length ms - k) ms))")
    case None
    with Cons show ?thesis by simp
  next
    case (Some key)
    with Cons.prems obtain agent where "map_of (instances t) key = Some agent"
      by (blast dest: consistent_fingerprintD)
    with Some Cons show ?thesis by simp
  qed
qed

lemma find_parent_conversation_Some:
  "find_parent_conversation L t ms sph = Inr (Some (key, agent)) \<Longrightarrow>
     map_of (instances t) key = Some agent"
  by (auto simp: find_parent_conversation_def dest: find_parent_loop_Some split: if_splits)

lemma find_parent_conversation_total:
  "consistent t \<Longrightarrow> \<exists>r. find_parent_conversation L t ms sph = Inr r"
  by (simp add: find_parent_conversation_def find_parent_loop_total)

lemma consistentI:
  assumes "consistent t"
    and "\<And>k. map_of (instances t) k \<noteq> None \<Longrightarrow> map_of (instances t') k \<noteq> None"
    and "\<And>k a. map_of (instances t') k = Some a \<Longrightarrow> agent_id a = k"
    and "\<And>fp k. map_of (fingerprint_to_agent t') fp = Some k \<Longrightarrow>
           map_of (fingerprint_to_agent t) fp = Some k \<or> map_of (instances t') k \<noteq> None"
    and "\<And>r k. map_of (request_to_agent t') r = Some k \<Longrightarrow>
           map_of (request_to_agent t) r = Some k \<or> map_of (instances t') k \<noteq> None"
  shows "consistent t'"
  unfolding consistent_def
proof (intro conjI allI impI)
  fix fp key assume "map_of (fingerprint_to_agent t') fp = Some key"
  from assms(4)[OF this] show "map_of (instances t') key \<noteq> None"
  proof
    assume "map_of (fingerprint_to_agent t) fp = Some key"
    with assms(1) have "map_of (instances t) key \<noteq> None"
      by (blast dest: consistent_fingerprintD)
    then show ?thesis by (rule assms(2))
  qed
next
  fix r key assume "map_of (request_to_agent t') r = Some key"
  from assms(5)[OF this] show "map_of (instances t') key \<noteq> None"
  proof
    assume "map_of (request_to_agent t) r = Some key"
    with assms(1) have "map_of (instances t) key \<noteq> None"
      by (blast dest: consistent_requestD)
    then show ?thesis by (rule assms(2))
  qed
next
  fix key agent assume "map_of (instances t') key = Some agent"
  then show "agent_id agent = key" by (rule assms(3))
qed

lemma consistent_agent_id:
  "consistent t \<Longrightarrow> map_of (instances t) k = Some a \<Longrightarrow> agent_id a = k"
  unfolding consistent_def by blast

lemma new_agent_fields:
  "fingerprint_to_agent (new_agent L t rid ms ts sph fp k) = AList.update fp k (fingerprint_to_agent t)"
  "request_to_agent (new_agent L t rid ms ts sph fp k) = AList.update rid k (request_to_agent t)"
  "agent_counter (new_agent L t rid ms ts sph fp k) = Suc (agent_counter t)"
  "workflow_edges (new_agent L t rid ms ts sph fp k) = workflow_edges t"
  "response_content_index (new_agent L t rid ms ts sph fp k) = response_content_index t"
  "tool_use_index (new_agent L t rid ms ts sph fp k) = tool_use_index t"
  "tool_result_index (new_agent L t rid ms ts sph fp k) = tool_result_index t"
  by (simp_all add: new_agent_def Let_def)

lemma new_agent_lookup_self:
  "\<exists>a. map_of (instances (new_agent L t rid ms ts sph fp k)) k = Some a \<and> agent_id a = k \<and>
       message_count_history a = [length ms] \<and> tool_results a = [] \<and> tool_uses a = []"
  by (simp add: new_agent_def Let_def update_conv')

lemma new_agent_instances:
  "instances (new_agent L t rid ms ts sph fp k) =
     AList.update k (the (map_of (instances (new_agent L t rid ms ts sph fp k)) k))
       (case detect_spawn L t (extract_first_user_message ms) of
          None \<Rightarrow> instances t
        | Some (task_id, parent_id) \<Rightarrow> link_to_parent (instances t) parent_id k)"
  by (simp add: new_agent_def Let_def update_conv')

lemma new_agent_lookup_other:
  assumes "k' \<noteq> k"
  shows "map_of (instances (new_agent L t rid ms ts sph fp k)) k' = None \<longleftrightarrow>
           map_of (instances t) k' = None"
    and "map_of (instances (new_agent L t rid ms ts sph fp k)) k' = Some a \<Longrightarrow>
           \<exists>a0. map_of (instances t) k' = Some a0 \<and> a = a0\<lparr>child_agent_ids := child_agent_ids a\<rparr>"
proof -
  have eq: "map_of (instances (new_agent L t rid ms ts sph fp k)) k' =
     map_of (case detect_spawn L t (extract_first_user_message ms) of
          None \<Rightarrow> instances t
        | Some (task_id, parent_id) \<Rightarrow> link_to_parent (instances t) parent_id k) k'"
    using assms by (subst new_agent_instances) (simp add: update_conv')
  show "map_of (instances (new_agent L t rid ms ts sph fp k)) k' = None \<longleftrightarrow>
           map_of (instances t) k' = None"
    unfolding eq by (simp add: link_to_parent_None split: option.splits prod.splits)
  show "map_of (instances (new_agent L t rid ms ts sph fp k)) k' = Some a \<Longrightarrow>
           \<exists>a0. map_of (instances t) k' = Some a0 \<and> a = a0\<lparr>child_agent_ids := child_agent_ids a\<rparr>"
    unfolding eq by (auto dest: link_to_parent_Some split: option.splits prod.splits)
qed

lemma Inr_pair_eqD: "Inr (a, b) = (Inr (c, d) :: 'e + 'a \<times> 'b) \<Longrightarrow> c = a \<and> d = b"
  by simp

lemma identify_replay_eq:
  assumes "map_of (fingerprint_to_agent t) (compute_conversation_fingerprint L (b_messages b)) = Some key"
    and "map_of (instances t) key = Some agent"
  shows "identify_or_create_agent L t rid b ts =
     Inr (attribute_replay t key agent rid (length (b_messages b)) ts, key)"
  using assms by (simp add: identify_or_create_agent_def Let_def)

lemma identify_replay_error:
  assumes "map_of (fingerprint_to_agent t) (compute_conversation_fingerprint L (b_messages b)) = Some key"
    and "map_of (instances t) key = None"
  shows "identify_or_create_agent L t rid b ts = Inl KeyError"
  using assms by (simp add: identify_or_create_agent_def Let_def)

lemma identify_parent_error:
  assumes "map_of (fingerprint_to_agent t) (compute_conversation_fingerprint L (b_messages b)) = None"
    and "find_parent_conversation L t (b_messages b) (compute_system_prompt_hash L (b_system b)) = Inl err"
  shows "identify_or_create_agent L t rid b ts = Inl err"
  using assms by (simp add: identify_or_create_agent_def Let_def)

lemma identify_continuation_eq:
  assumes "map_of (fingerprint_to_agent t) (compute_conversation_fingerprint L (b_messages b)) = None"
    and "find_parent_conversation L t (b_messages b) (compute_system_prompt_hash L (b_system b)) =
           Inr (Some (key, agent))"
  shows "identify_or_create_agent L t rid b ts =
     Inr (attribute_continuation t key agent rid (length (b_messages b)) ts
            (compute_conversation_fingerprint L (b_messages b)), key)"
  using assms by (simp add: identify_or_create_agent_def Let_def)

lemma identify_fresh_eq:
  assumes "map_of (fingerprint_to_agent t) (compute_conversation_fingerprint L (b_messages b)) = None"
    and "find_parent_conversation L t (b_messages b) (compute_system_prompt_hash L (b_system b)) =
           Inr None"
  shows "identify_or_create_agent L t rid b ts =
     Inr (new_agent L t rid (b_messages b) ts (compute_system_prompt_hash L (b_system b))
              (compute_conversation_fingerprint L (b_messages b))
              (''agent_'' @ str_of_nat (agent_counter t)),
          ''agent_'' @ str_of_nat (agent_counter t))"
  using assms by (simp add: identify_or_create_agent_def Let_def)

lemma identify_total:
  assumes "consistent t"
  shows "\<exists>t' key. identify_or_create_agent L t rid b ts = Inr (t', key)"
proof (cases "map_of (fingerprint_to_agent t) (compute_conversation_fingerprint L (b_messages b))")
  case (Some k)
  with assms obtain agent where "map_of (instances t) k = Some agent"
    by (blast dest: consistent_fingerprintD)
  from identify_replay_eq [OF Some this] show ?thesis by blast
next
  case None
  from assms obtain r where r:
    "find_parent_conversation L t (b_messages b) (compute_system_prompt_hash L (b_system b)) = Inr r"
    using find_parent_conversation_total by blast
  show ?thesis
  proof (cases r)
    case None': None
    with r identify_fresh_eq [OF None] show ?thesis by blast
  next
    case (Some p)
    obtain k agent where "p = (k, agent)" by (cases p)
    with r Some identify_continuation_eq [OF None] show ?thesis by blast
  qed
qed

lemma identify_cases:
  assumes id: "identify_or_create_agent L t rid b ts = Inr (t', key)"
  obtains
    (replay) agent where
      "map_of (fingerprint_to_agent t) (compute_conversation_fingerprint L (b_messages b)) = Some key"
      "map_of (instances t) key = Some agent"
      "t' = attribute_replay t key agent rid (length (b_messages b)) ts"
  | (continuation) agent where
      "map_of (fingerprint_to_agent t) (compute_conversation_fingerprint L (b_messages b)) = None"
      "map_of (instances t) key = Some agent"
      "t' = attribute_continuation t key agent rid (length (b_messages b)) ts
              (compute_conversation_fingerprint L (b_messages b))"
  | (fresh)
      "map_of (fingerprint_to_agent t) (compute_conversation_fingerprint L (b_messages b)) = None"
      "key = ''agent_'' @ str_of_nat (agent_counter t)"
      "t' = new_agent L t rid (b_messages b) ts (compute_system_prompt_hash L (b_system b))
              (compute_conversation_fingerprint L (b_messages b)) key"
proof (cases "map_of (fingerprint_to_agent t) (compute_conversation_fingerprint L (b_messages b))")
  case (Some k)
  note fp = this
  show ?thesis
  proof (cases "map_of (instances t) k")
    case None
    from identify_replay_error [OF fp None, of rid ts] id have False
      by (simp only: sum.distinct)
    then show ?thesis ..
  next
    case (Some agent)
    from identify_replay_eq [OF fp Some, of rid ts] id
    have "Inr (attribute_replay t k agent rid (length (b_messages b)) ts, k) =
        (Inr (t', key) :: py_error + tracker \<times> string)"
      by (rule trans [OF sym])
    then have "t' = attribute_replay t k agent rid (length (b_messages b)) ts \<and> key = k"
      by (rule Inr_pair_eqD)
    then have t': "t' = attribute_replay t key agent rid (length (b_messages b)) ts"
      and k: "k = key" by blast+
    from fp Some show ?thesis
      unfolding k using t' by (rule replay)
  qed
next
  case None
  note fp = this
  show ?thesis
  proof (cases "find_parent_conversation L t (b_messages b) (compute_system_prompt_hash L (b_system b))")
    case (Inl err)
    from identify_parent_error [OF fp Inl, of rid ts] id have False
      by (simp only: sum.distinct)
    then show ?thesis ..
  next
    case (Inr r)
    show ?thesis
    proof (cases r)
      case None': None
      from Inr None' have "find_parent_conversation L t (b_messages b)
          (compute_system_prompt_hash L (b_system b)) = Inr None"
        by (simp only:)
      from identify_fresh_eq [OF fp this, of rid ts] id
      have "Inr (new_agent L t rid (b_messages b) ts (compute_system_prompt_hash L (b_system b))
              (compute_conversation_fingerprint L (b_messages b))
              (''agent_'' @ str_of_nat (agent_counter t)),
          ''agent_'' @ str_of_nat (agent_counter t)) =
          (Inr (t', key) :: py_error + tracker \<times> string)"
        by (rule trans [OF sym])
      then have "t' = new_agent L t rid (b_messages b) ts (compute_system_prompt_hash L (b_system b))
              (compute_conversation_fingerprint L (b_messages b))
              (''agent_'' @ str_of_nat (agent_counter t)) \<and>
          key = ''agent_'' @ str_of_nat (agent_counter t)"
        by (rule Inr_pair_eqD)
      then have k: "key = ''agent_'' @ str_of_nat (agent_counter t)"
        and t': "t' = new_agent L t rid (b_messages b) ts (compute_system_prompt_hash L (b_system b))
              (compute_conversation_fingerprint L (b_messages b)) key"
        by blast+
      from fp k t' show ?thesis by (rule fresh)
    next
      case (Some p)
      obtain k agent where p: "p = (k, agent)" by (cases p)
      from Inr Some p have fpc: "find_parent_conversation L t (b_messages b)
          (compute_system_prompt_hash L (b_system b)) = Inr (Some (k, agent))"
        by (simp only:)
      then have inst: "map_of (instances t) k = Some agent"
        by (rule find_parent_conversation_Some)
      from identify_continuation_eq [OF fp fpc, of rid ts] id
      have "Inr (attribute_continuation t k agent rid (length (b_messages b)) ts
                 (compute_conversation_fingerprint L (b_messages b)), k) =
          (Inr (t', key) :: py_error + tracker \<times> string)"
        by (rule trans [OF sym])
      then have "t' = attribute_continuation t k agent rid (length (b_messages b)) ts
                 (compute_conversation_fingerprint L (b_messages b)) \<and> key = k"
        by (rule Inr_pair_eqD)
      then have t': "t' = attribute_continuation t key agent rid (length (b_messages b)) ts
                 (compute_conversation_fingerprint L (b_messages b))"
        and k: "k = key" by blast+
      from fp inst show ?thesis
        unfolding k using t' by (rule continuation)
    qed
  qed
qed

lemma attribute_replay_fields:
  "fingerprint_to_agent (attribute_replay t key agent rid n ts) = fingerprint_to_agent t"
  "request_to_agent (attribute_replay t key agent rid n ts) = AList.update rid key (request_to_agent t)"
  "agent_counter (attribute_replay t key agent rid n ts) = agent_counter t"
  "workflow_edges (attribute_replay t key agent rid n ts) = workflow_edges t"
  "response_content_index (attribute_replay t key agent rid n ts) = response_content_index t"
  "tool_use_index (attribute_replay t key agent rid n ts) = tool_use_index t"
  "tool_result_index (attribute_replay t key agent rid n ts) = tool_result_index t"
  "instances (attribute_replay t key agent rid n ts) =
     AList.update key (append_request agent rid n ts) (instances t)"
  by (simp_all add: attribute_replay_def)

lemma attribute_continuation_fields:
  "fingerprint_to_agent (attribute_continuation t key agent rid n ts fp) =
     AList.update fp (agent_id agent) (fingerprint_to_agent t)"
  "request_to_agent (attribute_continuation t key agent rid n ts fp) =
     AList.update rid (agent_id agent) (request_to_agent t)"
  "agent_counter (attribute_continuation t key agent rid n ts fp) = agent_counter t"
  "workflow_edges (attribute_continuation t key agent rid n ts fp) = workflow_edges t"
  "response_content_index (attribute_continuation t key agent rid n ts fp) = response_content_index t"
  "tool_use_index (attribute_continuation t key agent rid n ts fp) = tool_use_index t"
  "tool_result_index (attribute_continuation t key agent rid n ts fp) = tool_result_index t"
  "instances (attribute_continuation t key agent rid n ts fp) =
     AList.update key ((append_request agent rid n ts)\<lparr>conversation_fingerprint := fp\<rparr>) (instances t)"
  by (simp_all add: attribute_continuation_def)

lemma append_request_fields:
  "agent_id (append_request agent rid n ts) = agent_id agent"
  "message_count_history (append_request agent rid n ts) = message_count_history agent @ [n]"
  "requests (append_request agent rid n ts) = requests agent @ [rid]"
  "tool_uses (append_request agent rid n ts) = tool_uses agent"
  "tool_results (append_request agent rid n ts) = tool_results agent"
  by (simp_all add: append_request_def)

lemma identify_consistent:
  assumes id: "identify_or_create_agent L t rid b ts = Inr (t', key)" and c: "consistent t"
  shows "consistent t'"
  using id
proof (cases rule: identify_cases)
  case (replay agent)
  from c replay(2) have aid: "agent_id agent = key" by (rule consistent_agent_id)
  show ?thesis
  proof (rule consistentI [OF c])
    fix k assume "map_of (instances t) k \<noteq> None"
    then show "map_of (instances t') k \<noteq> None"
      by (simp add: replay(3) attribute_replay_fields update_conv')
  next
    fix k a assume "map_of (instances t') k = Some a"
    then show "agent_id a = k"
      using aid consistent_agent_id [OF c, of k a]
      by (auto simp: replay(3) attribute_replay_fields update_conv' append_request_fields
          split: if_splits)
  next
    fix fp k assume "map_of (fingerprint_to_agent t') fp = Some k"
    then show "map_of (fingerprint_to_agent t) fp = Some k \<or> map_of (instances t') k \<noteq> None"
      by (simp add: replay(3) attribute_replay_fields)
  next
    fix r k assume "map_of (request_to_agent t') r = Some k"
    then show "map_of (request_to_agent t) r = Some k \<or> map_of (instances t') k \<noteq> None"
      by (auto simp: replay(3) attribute_replay_fields update_conv' split: if_splits)
  qed
next
  case (continuation agent)
  from c continuation(2) have aid: "agent_id agent = key" by (rule consistent_agent_id)
  show ?thesis
  proof (rule consistentI [OF c])
    fix k assume "map_of (instances t) k \<noteq> None"
    then show "map_of (instances t') k \<noteq> None"
      by (simp add: continuation(3) attribute_continuation_fields update_conv')
  next
    fix k a assume "map_of (instances t') k = Some a"
    then show "agent_id a = k"
      using aid consistent_agent_id [OF c, of k a]
      by (auto simp: continuation(3) attribute_continuation_fields update_conv'
          append_request_fields split: if_splits)
  next
    fix fp k assume "map_of (fingerprint_to_agent t') fp = Some k"
    then show "map_of (fingerprint_to_agent t) fp = Some k \<or> map_of (instances t') k \<noteq> None"
      using aid
      by (auto simp: continuation(3) attribute_continuation_fields update_conv' split: if_splits)
  next
    fix r k assume "map_of (request_to_agent t') r = Some k"
    then show "map_of (request_to_agent t) r = Some k \<or> map_of (instances t') k \<noteq> None"
      using aid
      by (auto simp: continuation(3) attribute_continuation_fields update_conv' split: if_splits)
  qed
next
  case fresh
  obtain a where self: "map_of (instances t') key = Some a" "agent_id a = key"
    using new_agent_lookup_self unfolding fresh(3) by blast
  show ?thesis
  proof (rule consistentI [OF c])
    fix k assume k: "map_of (instances t) k \<noteq> None"
    show "map_of (instances t') k \<noteq> None"
    proof (cases "k = key")
      case True
      with self show ?thesis by simp
    next
      case False
      with k show ?thesis
        unfolding fresh(3) by (simp add: new_agent_lookup_other(1))
    qed
  next
    fix k a' assume k: "map_of (instances t') k = Some a'"
    show "agent_id a' = k"
    proof (cases "k = key")
      case True
      with self k show ?thesis by simp
    next
      case False
      from new_agent_lookup_other(2) [OF False k [unfolded fresh(3)]]
      obtain a0 where a0: "map_of (instances t) k = Some a0"
        and eq: "a' = a0\<lparr>child_agent_ids := child_agent_ids a'\<rparr>"
        by blast
      from c a0 have "agent_id a0 = k" by (rule consistent_agent_id)
      moreover from eq have "agent_id a' = agent_id (a0\<lparr>child_agent_ids := child_agent_ids a'\<rparr>)"
        by (rule arg_cong)
      ultimately show ?thesis by simp
    qed
  next
    fix fp k assume "map_of (fingerprint_to_agent t') fp = Some k"
    then show "map_of (fingerprint_to_agent t) fp = Some k \<or> map_of (instances t') k \<noteq> None"
      using self(1) unfolding fresh(3)
      by (auto simp: new_agent_fields update_conv' split: if_splits)
  next
    fix r k assume "map_of (request_to_agent t') r = Some k"
    then show "map_of (request_to_agent t) r = Some k \<or> map_of (instances t') k \<noteq> None"
      using self(1) unfolding fresh(3)
      by (auto simp: new_agent_fields update_conv' split: if_splits)
  qed
qed

lemma tracking_step_refl: "tracking_step t t"
  by (simp add: tracking_step_def)

lemma tracking_step_trans: "tracking_step t t1 \<Longrightarrow> tracking_step t1 t2 \<Longrightarrow> tracking_step t t2"
  unfolding tracking_step_def by (metis (no_types, lifting))

lemma tracking_step_same_instances:
  assumes "instances t' = instances t" "fingerprint_to_agent t' = fingerprint_to_agent t"
    "request_to_agent t' = request_to_agent t" "agent_counter t' = agent_counter t"
  shows "tracking_step t t'"
  using assms by (simp add: tracking_step_def)

lemma map_fst_update_present:
  "map_of al k = Some v \<Longrightarrow> map fst (AList.update k v' al) = map fst al"
  by (simp add: update_keys map_of_eq_Some_iff weak_map_of_SomeI domI dom_map_of_conv_image_fst[symmetric])

lemma tracking_step_update_agent:
  assumes "map_of (instances t) key = Some agent"
    and "agent_id agent' = agent_id agent"
    and "message_count_history agent' = message_count_history agent"
    and "instances t' = AList.update key agent' (instances t)"
    and "fingerprint_to_agent t' = fingerprint_to_agent t"
    and "request_to_agent t' = request_to_agent t"
    and "agent_counter t' = agent_counter t"
  shows "tracking_step t t'"
  unfolding tracking_step_def
proof (intro conjI allI impI)
  show "map fst (instances t') = map fst (instances t)"
    unfolding assms(4) using assms(1) by (rule map_fst_update_present)
next
  fix k a' assume "map_of (instances t') k = Some a'"
  then show "\<exists>a. map_of (instances t) k = Some a \<and> agent_id a' = agent_id a \<and>
             message_count_history a' = message_count_history a"
    using assms(1,2,3) unfolding assms(4)
    by (cases "k = key") (simp_all add: update_conv')
qed (simp_all add: assms)

lemma tracking_step_consistent:
  assumes "tracking_step t t'" and c: "consistent t"
  shows "consistent t'"
proof (rule consistentI [OF c])
  fix k assume "map_of (instances t) k \<noteq> None"
  then have "k \<in> fst ` set (instances t)"
    by (simp add: map_of_eq_None_iff)
  also from assms(1) have "fst ` set (instances t) = fst ` set (instances t')"
    unfolding tracking_step_def by (metis set_map)
  finally show "map_of (instances t') k \<noteq> None"
    by (simp add: map_of_eq_None_iff)
next
  fix k a' assume "map_of (instances t') k = Some a'"
  with assms(1) obtain a where "map_of (instances t) k = Some a" "agent_id a' = agent_id a"
    unfolding tracking_step_def by blast
  with c show "agent_id a' = k"
    by (simp add: consistent_agent_id)
next
  fix fp k assume "map_of (fingerprint_to_agent t') fp = Some k"
  with assms(1) show "map_of (fingerprint_to_agent t) fp = Some k \<or> map_of (instances t') k \<noteq> None"
    by (simp add: tracking_step_def)
next
  fix r k assume "map_of (request_to_agent t') r = Some k"
  with assms(1) show "map_of (request_to_agent t) r = Some k \<or> map_of (instances t') k \<noteq> None"
    by (simp add: tracking_step_def)
qed

lemma register_spawn_hints_fields:
  "instances (register_spawn_hints L t rid tid name inp key) = instances t"
  "fingerprint_to_agent (register_spawn_hints L t rid tid name inp key) = fingerprint_to_agent t"
  "request_to_agent (register_spawn_hints L t rid tid name inp key) = request_to_agent t"
  "agent_counter (register_spawn_hints L t rid tid name inp key) = agent_counter t"
  "workflow_edges (register_spawn_hints L t rid tid name inp key) = workflow_edges t"
  "response_content_index (register_spawn_hints L t rid tid name inp key) = response_content_index t"
  "tool_use_index (register_spawn_hints L t rid tid name inp key) = tool_use_index t"
  "tool_result_index (register_spawn_hints L t rid tid name inp key) = tool_result_index t"
  by (simp_all add: register_spawn_hints_def Let_def)

lemma register_task_prompt_fields:
  "instances (register_task_prompt L t task prompt key) = instances t"
  "fingerprint_to_agent (register_task_prompt L t task prompt key) = fingerprint_to_agent t"
  "request_to_agent (register_task_prompt L t task prompt key) = request_to_agent t"
  "agent_counter (register_task_prompt L t task prompt key) = agent_counter t"
  "workflow_edges (register_task_prompt L t task prompt key) = workflow_edges t"
  "response_content_index (register_task_prompt L t task prompt key) = response_content_index t"
  "tool_use_index (register_task_prompt L t task prompt key) = tool_use_index t"
  "tool_result_index (register_task_prompt L t task prompt key) = tool_result_index t"
  by (simp_all add: register_task_prompt_def)

lemma track_response_content_fields:
  "instances (track_response_content L t rid bs ts) = instances t"
  "fingerprint_to_agent (track_response_content L t rid bs ts) = fingerprint_to_agent t"
  "request_to_agent (track_response_content L t rid bs ts) = request_to_agent t"
  "agent_counter (track_response_content L t rid bs ts) = agent_counter t"
  "workflow_edges (track_response_content L t rid bs ts) = workflow_edges t"
  "tool_use_index (track_response_content L t rid bs ts) = tool_use_index t"
  "tool_result_index (track_response_content L t rid bs ts) = tool_result_index t"
  by (simp_all add: track_response_content_def Let_def split: option.splits)

lemma track_request_content_fields:
  "instances (track_request_content L t rid ms ts) = instances t"
  "fingerprint_to_agent (track_request_content L t rid ms ts) = fingerprint_to_agent t"
  "request_to_agent (track_request_content L t rid ms ts) = request_to_agent t"
  "agent_counter (track_request_content L t rid ms ts) = agent_counter t"
  "response_content_index (track_request_content L t rid ms ts) = response_content_index t"
  "tool_use_index (track_request_content L t rid ms ts) = tool_use_index t"
  "tool_result_index (track_request_content L t rid ms ts) = tool_result_index t"
  by (simp_all add: track_request_content_def split: option.splits)

lemma record_tool_use_tracking:
  assumes "record_tool_use t rid tid name inp key ts = Inr t1"
  shows "tracking_step t t1"
proof (cases "map_of (tool_use_index t) tid = None")
  case False
  with assms have "t1 = t" by (simp add: record_tool_use_def)
  then show ?thesis by (simp add: tracking_step_refl)
next
  case True
  note new = this
  show ?thesis
  proof (cases "map_of (instances t) key")
    case None
    with new assms show ?thesis by (simp add: record_tool_use_def)
  next
    case (Some agent)
    with new assms have t1: "t1 = t\<lparr>tool_use_index :=
                       AList.update tid
                         \<lparr>ui_tool_use_id = tid, ui_tool_name = name,
                          ui_agent_id = key, ui_request_id = rid,
                          ui_timestamp = ts, ui_input = inp\<rparr>
                         (tool_use_index t),
                    instances :=
                       AList.update key
                         (agent\<lparr>tool_uses := tool_uses agent @
                            [\<lparr>tus_tool_use_id = tid, tus_tool_name = name,
                              tus_request_id = rid, tus_timestamp = ts\<rparr>]\<rparr>)
                         (instances t)\<rparr>"
      by (simp add: record_tool_use_def)
    show ?thesis
      by (rule tracking_step_update_agent [OF Some, where agent' = "agent\<lparr>tool_uses := tool_uses agent @
                            [\<lparr>tus_tool_use_id = tid, tus_tool_name = name,
                              tus_request_id = rid, tus_timestamp = ts\<rparr>]\<rparr>"])
        (simp_all add: t1)
  qed
qed


lemma register_spawn_hints_tracking: "tracking_step t (register_spawn_hints L t rid tid name inp key)"
  by (rule tracking_step_same_instances) (simp_all add: register_spawn_hints_fields)

lemma track_tool_use_unfold:
  assumes "track_tool_use L t rid b ts = Inr t'"
  shows "t' = t \<or> (\<exists>tid name inp key t1.
           record_tool_use t rid tid name inp key ts = Inr t1 \<and>
           t' = register_spawn_hints L t1 rid tid name inp key)"
proof (cases b)
  case (ToolUseBlock tido name inp)
  show ?thesis
  proof (cases tido)
    case None
    with ToolUseBlock assms show ?thesis by (simp add: track_tool_use_def)
  next
    case (Some tid)
    note tid = this
    show ?thesis
    proof (cases "tid = [] \<or> map_of (request_to_agent t) rid = None \<or>
        map_of (request_to_agent t) rid = Some []")
      case True
      with ToolUseBlock tid assms show ?thesis
        by (auto simp: track_tool_use_def split: option.splits if_splits)
    next
      case False
      then obtain key where key: "tid \<noteq> []" "map_of (request_to_agent t) rid = Some key" "key \<noteq> []"
        by auto
      show ?thesis
      proof (cases "record_tool_use t rid tid name inp key ts")
        case (Inl err)
        with ToolUseBlock tid key assms show ?thesis by (simp add: track_tool_use_def)
      next
        case (Inr t1)
        with ToolUseBlock tid key assms
        have "t' = register_spawn_hints L t1 rid tid name inp key"
          by (simp add: track_tool_use_def)
        with Inr show ?thesis by blast
      qed
    qed
  qed
qed (use assms in \<open>simp_all add: track_tool_use_def\<close>)

lemma track_tool_use_tracking:
  assumes "track_tool_use L t rid b ts = Inr t'"
  shows "tracking_step t t'"
  using track_tool_use_unfold [OF assms]
  by (auto intro: tracking_step_refl tracking_step_trans record_tool_use_tracking
      register_spawn_hints_tracking)


lemma record_tool_result_tracking:
  assumes "record_tool_result t rid tid is_err key ts = Inr t1"
  shows "tracking_step t t1"
proof (cases "map_of (instances t) key")
  case None
  with assms show ?thesis by (simp add: record_tool_result_def)
next
  case (Some agent)
  with assms have t1: "instances t1 = AList.update key
                      (agent\<lparr>tool_results := tool_results agent @
                         [\<lparr>trs_tool_use_id = tid, trs_request_id = rid,
                           trs_timestamp = ts, trs_is_error = is_err\<rparr>]\<rparr>)
                      (instances t)"
    "fingerprint_to_agent t1 = fingerprint_to_agent t"
    "request_to_agent t1 = request_to_agent t"
    "agent_counter t1 = agent_counter t"
    by (auto simp: record_tool_result_def)
  show ?thesis
    by (rule tracking_step_update_agent [OF Some _ _ t1]) simp_all
qed


lemma track_tool_result_unfold:
  assumes "track_tool_result L t rid b ts = Inr t'"
  shows "t' = t \<or> (\<exists>tid is_err key. record_tool_result t rid tid is_err key ts = Inr t')"
proof (cases b)
  case (ToolResultBlock tido c is_err)
  show ?thesis
  proof (cases tido)
    case None
    with ToolResultBlock assms show ?thesis by (simp add: track_tool_result_def)
  next
    case (Some tid)
    with ToolResultBlock assms show ?thesis
      by (auto simp: track_tool_result_def split: option.splits if_splits)
  qed
qed (use assms in \<open>simp_all add: track_tool_result_def\<close>)

lemma track_tool_result_tracking:
  assumes "track_tool_result L t rid b ts = Inr t'"
  shows "tracking_step t t'"
  using track_tool_result_unfold [OF assms]
  by (auto intro: tracking_step_refl record_tool_result_tracking)




lemma build_request_sequence_edges_unfold:
  assumes "build_request_sequence_edges L t = Inr t'"
  shows "\<exists>es. all_sequence_edges L (instances t) = Inr es \<and>
           t' = t\<lparr>workflow_edges := workflow_edges t @ es\<rparr>"
proof (cases "all_sequence_edges L (instances t)")
  case (Inl err)
  with assms show ?thesis by (simp add: build_request_sequence_edges_def)
next
  case (Inr es)
  with assms have "t' = t\<lparr>workflow_edges := workflow_edges t @ es\<rparr>"
    by (simp add: build_request_sequence_edges_def)
  with Inr show ?thesis by blast
qed

lemma build_workflow_dag_unfold:
  assumes "build_workflow_dag L t = Inr (t', d)"
  shows "build_request_sequence_edges L t = Inr t'"
proof (cases "build_request_sequence_edges L t")
  case (Inl err)
  with assms show ?thesis by (simp add: build_workflow_dag_def Let_def)
next
  case (Inr t1)
  with assms have "t1 = t'" by (simp add: build_workflow_dag_def Let_def)
  with Inr show ?thesis by simp
qed





lemma step_Identify_unfold:
  assumes "step L t (Identify rid b ts) = Inr t'"
  shows "\<exists>key. identify_or_create_agent L t rid b ts = Inr (t', key)"
proof (cases "identify_or_create_agent L t rid b ts")
  case (Inl err)
  with assms show ?thesis by simp
next
  case (Inr p)
  obtain t1 key where "p = (t1, key)" by (cases p)
  with Inr assms show ?thesis by simp
qed

lemma build_request_sequence_edges_tracking:
  assumes "build_request_sequence_edges L t = Inr t'"
  shows "tracking_step t t'"
proof -
  from build_request_sequence_edges_unfold [OF assms] obtain es where
    "t' = t\<lparr>workflow_edges := workflow_edges t @ es\<rparr>" by blast
  then show ?thesis
    by (intro tracking_step_same_instances) simp_all
qed

lemma step_BuildWorkflowDag_unfold:
  assumes "step L t BuildWorkflowDag = Inr t'"
  shows "build_request_sequence_edges L t = Inr t'"
proof (cases "build_workflow_dag L t")
  case (Inl err)
  with assms show ?thesis by simp
next
  case (Inr p)
  obtain t1 d where p: "p = (t1, d)" by (cases p)
  with Inr assms have "t1 = t'" by simp
  with Inr p show ?thesis by (simp add: build_workflow_dag_unfold)
qed

lemma step_tracking:
  assumes "step L t e = Inr t'" and "\<And>rid b ts. e \<noteq> Identify rid b ts"
  shows "tracking_step t t'"
proof (cases e)
  case (Identify rid b ts)
  with assms(2) show ?thesis by blast
next
  case (TrackToolUse rid blk ts)
  with assms(1) show ?thesis by (simp add: track_tool_use_tracking)
next
  case (TrackToolResult rid blk ts)
  with assms(1) show ?thesis by (simp add: track_tool_result_tracking)
next
  case (RegisterTaskPrompt task prompt key)
  with assms(1) have "t' = register_task_prompt L t task prompt key" by simp
  then show ?thesis
    by (intro tracking_step_same_instances) (simp_all add: register_task_prompt_fields)
next
  case (TrackRequestContent rid ms ts)
  with assms(1) have "t' = track_request_content L t rid ms ts" by simp
  then show ?thesis
    by (intro tracking_step_same_instances) (simp_all add: track_request_content_fields)
next
  case (TrackResponseContent rid bs ts)
  with assms(1) have "t' = track_response_content L t rid bs ts" by simp
  then show ?thesis
    by (intro tracking_step_same_instances) (simp_all add: track_response_content_fields)
next
  case BuildWorkflowDag
  with assms(1) show ?thesis
    by (simp only:) (blast dest: step_BuildWorkflowDag_unfold build_request_sequence_edges_tracking)
qed

lemma step_consistent:
  assumes "step L t e = Inr t'" and "consistent t"
  shows "consistent t'"
proof (cases "\<exists>rid b ts. e = Identify rid b ts")
  case True
  then obtain rid b ts where "e = Identify rid b ts" by blast
  with assms(1) obtain key where "identify_or_create_agent L t rid b ts = Inr (t', key)"
    by (blast dest: step_Identify_unfold)
  then show ?thesis using assms(2) by (rule identify_consistent)
next
  case False
  with assms(1) have "tracking_step t t'" by (intro step_tracking) blast+
  then show ?thesis using assms(2) by (rule tracking_step_consistent)
qed

lemma run_consistent:
  "run L t evs = Inr t' \<Longrightarrow> consistent t \<Longrightarrow> consistent t'"
proof (induction evs arbitrary: t)
  case Nil
  then show ?case by simp
next
  case (Cons e evs)
  show ?case
  proof (cases "step L t e")
    case (Inl err)
    with Cons.prems(1) show ?thesis by simp
  next
    case (Inr t1)
    from Inr Cons.prems(2) have "consistent t1" by (rule step_consistent)
    moreover from Inr Cons.prems(1) have "run L t1 evs = Inr t'" by simp
    ultimately show ?thesis by (intro Cons.IH)
  qed
qed

lemma reachable_consistent: "run L init_tracker evs = Inr t \<Longrightarrow> consistent t"
  by (erule run_consistent) (rule consistent_init)

lemma identify_fingerprint_kept:
  assumes id: "identify_or_create_agent L t rid b ts = Inr (t', key)"
    and "map_of (fingerprint_to_agent t) fp = Some k"
  shows "map_of (fingerprint_to_agent t') fp = Some k"
  using id
proof (cases rule: identify_cases)
  case (replay agent)
  with assms(2) show ?thesis by (simp add: attribute_replay_fields)
next
  case (continuation agent)
  with assms(2) show ?thesis
    by (auto simp: attribute_continuation_fields update_conv')
next
  case fresh
  with assms(2) show ?thesis
    by (auto simp: new_agent_fields update_conv')
qed

lemma step_fingerprint_kept:
  assumes "step L t e = Inr t'" and "map_of (fingerprint_to_agent t) fp = Some k"
  shows "map_of (fingerprint_to_agent t') fp = Some k"
proof (cases "\<exists>rid b ts. e = Identify rid b ts")
  case True
  then obtain rid b ts where "e = Identify rid b ts" by blast
  with assms(1) obtain key where "identify_or_create_agent L t rid b ts = Inr (t', key)"
    by (blast dest: step_Identify_unfold)
  then show ?thesis using assms(2) by (rule identify_fingerprint_kept)
next
  case False
  with assms(1) have "tracking_step t t'" by (intro step_tracking) blast+
  with assms(2) show ?thesis by (simp add: tracking_step_def)
qed

lemma run_fingerprint_kept:
  "run L t evs = Inr t' \<Longrightarrow> map_of (fingerprint_to_agent t) fp = Some k \<Longrightarrow>
     map_of (fingerprint_to_agent t') fp = Some k"
proof (induction evs arbitrary: t)
  case Nil
  then show ?case by simp
next
  case (Cons e evs)
  show ?case
  proof (cases "step L t e")
    case (Inl err)
    with Cons.prems(1) show ?thesis by simp
  next
    case (Inr t1)
    from Inr Cons.prems(2) have "map_of (fingerprint_to_agent t1) fp = Some k"
      by (rule step_fingerprint_kept)
    moreover from Inr Cons.prems(1) have "run L t1 evs = Inr t'" by simp
    ultimately show ?thesis by (intro Cons.IH)
  qed
qed

lemma identify_registers:
  assumes id: "identify_or_create_agent L t rid b ts = Inr (t', key)" and c: "consistent t"
  shows "map_of (fingerprint_to_agent t') (compute_conversation_fingerprint L (b_messages b)) = Some key
    \<and> map_of (request_to_agent t') rid = Some key"
  using id
proof (cases rule: identify_cases)
  case (replay agent)
  then show ?thesis by (simp add: attribute_replay_fields update_conv')
next
  case (continuation agent)
  from c continuation(2) have "agent_id agent = key" by (rule consistent_agent_id)
  with continuation show ?thesis
    by (simp add: attribute_continuation_fields update_conv')
next
  case fresh
  then show ?thesis by (simp add: new_agent_fields update_conv')
qed

lemma identify_known_fingerprint:
  assumes c: "consistent t"
    and fp: "map_of (fingerprint_to_agent t) (compute_conversation_fingerprint L (b_messages b)) = Some key"
  shows "\<exists>t'. identify_or_create_agent L t rid b ts = Inr (t', key) \<and>
           agent_counter t' = agent_counter t \<and>
           map fst (instances t') = map fst (instances t) \<and>
           map_of (request_to_agent t') rid = Some key"
proof -
  from c fp obtain agent where inst: "map_of (instances t) key = Some agent"
    by (blast dest: consistent_fingerprintD)
  let ?t' = "attribute_replay t key agent rid (length (b_messages b)) ts"
  have "identify_or_create_agent L t rid b ts = Inr (?t', key)"
    using fp inst by (rule identify_replay_eq)
  moreover have "agent_counter ?t' = agent_counter t"
    by (simp add: attribute_replay_fields)
  moreover have "map fst (instances ?t') = map fst (instances t)"
    using inst by (simp add: attribute_replay_fields map_fst_update_present)
  moreover have "map_of (request_to_agent ?t') rid = Some key"
    by (simp add: attribute_replay_fields update_conv')
  ultimately show ?thesis by (intro exI [of _ ?t'] conjI)
qed

lemma run_append:
  "run L t (es @ es') = (case run L t es of Inl err \<Rightarrow> Inl err | Inr t1 \<Rightarrow> run L t1 es')"
  by (induction es arbitrary: t) (simp_all split: sum.splits)

lemma run_snoc_Inr:
  assumes "run L t (es @ [e]) = Inr t'"
  obtains t1 where "run L t es = Inr t1" "step L t1 e = Inr t'"
  using assms by (auto simp: run_append split: sum.splits)

lemma message_counts_append:
  "message_counts (es @ es') = message_counts es @ message_counts es'"
  by (induction es rule: message_counts.induct) simp_all

lemma identify_history:
  assumes id: "identify_or_create_agent L t rid b ts = Inr (t', key)"
    and a': "map_of (instances t') k = Some a'"
  shows "(\<exists>a. map_of (instances t) k = Some a \<and>
            (message_count_history a' = message_count_history a \<or>
             message_count_history a' = message_count_history a @ [length (b_messages b)]))
         \<or> message_count_history a' = [length (b_messages b)]"
  using id
proof (cases rule: identify_cases)
  case (replay agent)
  with a' show ?thesis
    by (cases "k = key")
       (auto simp: attribute_replay_fields update_conv' append_request_fields)
next
  case (continuation agent)
  with a' show ?thesis
    by (cases "k = key")
       (auto simp: attribute_continuation_fields update_conv' append_request_fields)
next
  case fresh
  show ?thesis
  proof (cases "k = key")
    case True
    from new_agent_lookup_self [of L t rid "b_messages b" ts
        "compute_system_prompt_hash L (b_system b)"
        "compute_conversation_fingerprint L (b_messages b)" key]
    obtain a1 where "map_of (instances t') key = Some a1"
      and "message_count_history a1 = [length (b_messages b)]"
      unfolding fresh(3) by blast
    with a' True show ?thesis by simp
  next
    case False
    from new_agent_lookup_other(2) [OF False a' [unfolded fresh(3)]]
    obtain a0 where a0: "map_of (instances t) k = Some a0"
      and eq: "a' = a0\<lparr>child_agent_ids := child_agent_ids a'\<rparr>"
      by blast
    from eq have "message_count_history a' =
        message_count_history (a0\<lparr>child_agent_ids := child_agent_ids a'\<rparr>)"
      by (rule arg_cong)
    with a0 show ?thesis by simp
  qed
qed

lemma step_history:
  assumes "step L t e = Inr t'" and a': "map_of (instances t') k = Some a'"
  shows "(\<exists>a. map_of (instances t) k = Some a \<and>
            (message_count_history a' = message_count_history a \<or>
             message_count_history a' = message_count_history a @ message_counts [e]))
         \<or> message_count_history a' = message_counts [e]"
proof (cases "\<exists>rid b ts. e = Identify rid b ts")
  case True
  then obtain rid b ts where e: "e = Identify rid b ts" by blast
  with assms(1) obtain key where "identify_or_create_agent L t rid b ts = Inr (t', key)"
    by (blast dest: step_Identify_unfold)
  from identify_history [OF this a'] show ?thesis by (simp add: e)
next
  case False
  with assms(1) have "tracking_step t t'" by (intro step_tracking) blast+
  with a' show ?thesis unfolding tracking_step_def by blast
qed

lemma history_subseq:
  "run L init_tracker evs = Inr t \<Longrightarrow> map_of (instances t) k = Some a \<Longrightarrow>
     subseq (message_count_history a) (message_counts evs)"
proof (induction evs arbitrary: t k a rule: rev_induct)
  case Nil
  from Nil(1) have "instances t = []" by (auto simp: init_tracker_def)
  with Nil(2) show ?case by simp
next
  case (snoc e evs)
  from snoc.prems(1) obtain t1 where t1: "run L init_tracker evs = Inr t1"
    and st: "step L t1 e = Inr t"
    by (rule run_snoc_Inr)
  from step_history [OF st snoc.prems(2)] show ?case
  proof (elim disjE exE conjE)
    fix a0 assume a0: "map_of (instances t1) k = Some a0"
      and "message_count_history a = message_count_history a0"
    with snoc.IH [OF t1 a0] show ?thesis
      by (simp add: message_counts_append subseq_rev_drop_many)
  next
    fix a0 assume a0: "map_of (instances t1) k = Some a0"
      and "message_count_history a = message_count_history a0 @ message_counts [e]"
    with snoc.IH [OF t1 a0] show ?thesis
      by (simp add: message_counts_append list_emb_append_mono)
  next
    assume "message_count_history a = message_counts [e]"
    then show ?thesis
      by (simp add: message_counts_append list_emb_append2)
  qed
qed

lemma subseq_sorted: "subseq xs ys \<Longrightarrow> sorted ys \<Longrightarrow> sorted (xs :: nat list)"
  by (auto simp: subseq_conv_nths sorted_nths)

subsection \<open>Ownership of requests\<close>

lemma str_of_nat_digit: "n < 10 \<Longrightarrow> str_of_nat n = [digit_char n]"
  by (simp add: str_of_nat.simps)

lemma new_agent_owner:
  "\<exists>a. map_of (instances (new_agent L t rid ms ts sph fp k)) k = Some a \<and> agent_id a = k \<and>
       requests a = [rid] \<and> last_request_id a = rid"
  by (simp add: new_agent_def Let_def update_conv')

lemma identify_owner:
  assumes id: "identify_or_create_agent L t rid b ts = Inr (t', key)" and c: "consistent t"
  shows "\<exists>a. map_of (instances t') key = Some a \<and> agent_id a = key \<and>
             rid \<in> set (requests a) \<and> last_request_id a = rid"
  using id
proof (cases rule: identify_cases)
  case (replay agent)
  from c replay(2) have "agent_id agent = key" by (rule consistent_agent_id)
  with replay show ?thesis
    by (simp add: attribute_replay_fields update_conv' append_request_def)
next
  case (continuation agent)
  from c continuation(2) have "agent_id agent = key" by (rule consistent_agent_id)
  with continuation show ?thesis
    by (simp add: attribute_continuation_fields update_conv' append_request_def)
next
  case fresh
  from new_agent_owner [of L t rid "b_messages b" ts
        "compute_system_prompt_hash L (b_system b)"
        "compute_conversation_fingerprint L (b_messages b)" key]
  show ?thesis unfolding fresh(3) by auto
qed

lemma identify_known_fingerprint_state:
  assumes c: "consistent t"
    and fp: "map_of (fingerprint_to_agent t) (compute_conversation_fingerprint L (b_messages b)) = Some key"
  shows "\<exists>t' a a'. identify_or_create_agent L t rid b ts = Inr (t', key) \<and>
           map_of (instances t) key = Some a \<and>
           map_of (instances t') key = Some a' \<and>
           agent_id a = key \<and> agent_id a' = key \<and>
           requests a' = requests a @ [rid] \<and>
           last_request_id a' = rid \<and>
           message_count_history a' = message_count_history a @ [length (b_messages b)] \<and>
           timestamps a' = timestamps a @ [ts] \<and>
           a' = append_request a rid (length (b_messages b)) ts \<and>
           (\<forall>k. k \<noteq> key \<longrightarrow> map_of (instances t') k = map_of (instances t) k) \<and>
           map fst (instances t') = map fst (instances t) \<and>
           agent_counter t' = agent_counter t \<and>
           fingerprint_to_agent t' = fingerprint_to_agent t \<and>
           map_of (request_to_agent t') rid = Some key"
proof -
  from c fp obtain agent where inst: "map_of (instances t) key = Some agent"
    and aid: "agent_id agent = key"
    by (blast dest: consistent_fingerprintD)
  let ?a' = "append_request agent rid (length (b_messages b)) ts"
  let ?t' = "attribute_replay t key agent rid (length (b_messages b)) ts"
  have 1: "identify_or_create_agent L t rid b ts = Inr (?t', key)"
    using fp inst by (rule identify_replay_eq)
  have 2: "map_of (instances ?t') key = Some ?a'"
    by (simp add: attribute_replay_fields update_conv')
  have 3: "agent_id ?a' = key" "requests ?a' = requests agent @ [rid]"
    "last_request_id ?a' = rid"
    "message_count_history ?a' = message_count_history agent @ [length (b_messages b)]"
    "timestamps ?a' = timestamps agent @ [ts]"
    using aid by (simp_all add: append_request_def)
  have 4: "\<forall>k. k \<noteq> key \<longrightarrow> map_of (instances ?t') k = map_of (instances t) k"
    by (simp add: attribute_replay_fields update_conv')
  have 5: "map fst (instances ?t') = map fst (instances t)"
    using inst by (simp add: attribute_replay_fields map_fst_update_present)
  have 6: "agent_counter ?t' = agent_counter t" "fingerprint_to_agent ?t' = fingerprint_to_agent t"
    "map_of (request_to_agent ?t') rid = Some key"
    by (simp_all add: attribute_replay_fields update_conv')
  from 1 inst 2 aid 3 4 5 6 show ?thesis
    by (intro exI [of _ ?t'] exI [of _ agent] exI [of _ ?a'] conjI) (rule refl | assumption)+
qed

lemma digit_char_inj:
  assumes "a < 10" and "b < 10" and "digit_char a = digit_char b"
  shows "a = b"
proof -
  have "distinct ''0123456789''" by simp
  moreover have "a < length ''0123456789''" "b < length ''0123456789''"
    using assms(1,2) by simp_all
  ultimately show ?thesis
    using assms(3) unfolding digit_char_def by (simp only: nth_eq_iff_index_eq)
qed

lemma str_of_nat_not_Nil: "str_of_nat n \<noteq> []"
  by (subst str_of_nat.simps) simp

lemma str_of_nat_inj: "str_of_nat m = str_of_nat n \<Longrightarrow> m = n"
proof (induction m arbitrary: n rule: str_of_nat.induct)
  case (1 m)
  show ?case
  proof (cases "m < 10")
    case m: True
    show ?thesis
    proof (cases "n < 10")
      case True
      with m "1.prems" have "digit_char m = digit_char n"
        by (simp add: str_of_nat_digit)
      with m True show ?thesis by (rule digit_char_inj)
    next
      case False
      then have "str_of_nat n = str_of_nat (n div 10) @ [digit_char (n mod 10)]"
        by (subst str_of_nat.simps) simp
      with m "1.prems" have "[digit_char m] = str_of_nat (n div 10) @ [digit_char (n mod 10)]"
        by (simp add: str_of_nat_digit)
      then have "str_of_nat (n div 10) = []" by simp
      then show ?thesis by (simp add: str_of_nat_not_Nil)
    qed
  next
    case m: False
    then have sm: "str_of_nat m = str_of_nat (m div 10) @ [digit_char (m mod 10)]"
      by (subst str_of_nat.simps) simp
    show ?thesis
    proof (cases "n < 10")
      case True
      with "1.prems" sm have "str_of_nat (m div 10) @ [digit_char (m mod 10)] = [digit_char n]"
        by (simp add: str_of_nat_digit)
      then have "str_of_nat (m div 10) = []" by simp
      then show ?thesis by (simp add: str_of_nat_not_Nil)
    next
      case False
      then have sn: "str_of_nat n = str_of_nat (n div 10) @ [digit_char (n mod 10)]"
        by (subst str_of_nat.simps) simp
      from "1.prems" sm sn have eq: "str_of_nat (m div 10) = str_of_nat (n div 10)"
        and d: "digit_char (m mod 10) = digit_char (n mod 10)"
        by simp_all
      from m eq have "m div 10 = n div 10" by (rule "1.IH")
      moreover have "m mod 10 = n mod 10"
        by (rule digit_char_inj [OF _ _ d]) simp_all
      ultimately show ?thesis by (metis div_mult_mod_eq)
    qed
  qed
qed

lemma keys_numbered_init: "keys_numbered init_tracker"
  by (simp add: keys_numbered_def init_tracker_def)

lemma identify_keys_numbered:
  assumes id: "identify_or_create_agent L t rid b ts = Inr (t', key)"
    and kn: "keys_numbered t"
  shows "keys_numbered t'"
  using id
proof (cases rule: identify_cases)
  case (replay agent)
  with kn show ?thesis
    unfolding keys_numbered_def
    by (auto simp: attribute_replay_fields update_conv' split: if_splits)
next
  case (continuation agent)
  with kn show ?thesis
    unfolding keys_numbered_def
    by (auto simp: attribute_continuation_fields update_conv' split: if_splits)
next
  case fresh
  show ?thesis
    unfolding keys_numbered_def
  proof (intro allI impI)
    fix k a assume a: "map_of (instances t') k = Some a"
    show "\<exists>i<agent_counter t'. k = ''agent_'' @ str_of_nat i"
    proof (cases "k = key")
      case True
      with fresh show ?thesis
        by (auto simp: new_agent_fields)
    next
      case False
      from new_agent_lookup_other(2) [OF False a [unfolded fresh(3)]]
      obtain a0 where "map_of (instances t) k = Some a0" by blast
      with kn obtain i where "i < agent_counter t" "k = ''agent_'' @ str_of_nat i"
        unfolding keys_numbered_def by blast
      then show ?thesis
        unfolding fresh(3) by (auto simp: new_agent_fields intro: less_SucI)
    qed
  qed
qed

lemma tracking_step_keys_numbered:
  assumes "tracking_step t t'" and "keys_numbered t"
  shows "keys_numbered t'"
  using assms unfolding tracking_step_def keys_numbered_def by metis

lemma step_keys_numbered:
  assumes "step L t e = Inr t'" and "keys_numbered t"
  shows "keys_numbered t'"
proof (cases "\<exists>rid b ts. e = Identify rid b ts")
  case True
  then obtain rid b ts where "e = Identify rid b ts" by blast
  with assms(1) obtain key where "identify_or_create_agent L t rid b ts = Inr (t', key)"
    by (blast dest: step_Identify_unfold)
  then show ?thesis using assms(2) by (rule identify_keys_numbered)
next
  case False
  with assms(1) have "tracking_step t t'" by (intro step_tracking) blast+
  then show ?thesis using assms(2) by (rule tracking_step_keys_numbered)
qed

lemma run_keys_numbered:
  "run L t evs = Inr t' \<Longrightarrow> keys_numbered t \<Longrightarrow> keys_numbered t'"
proof (induction evs arbitrary: t)
  case Nil
  then show ?case by simp
next
  case (Cons e evs)
  show ?case
  proof (cases "step L t e")
    case (Inl err)
    with Cons.prems(1) show ?thesis by simp
  next
    case (Inr t1)
    then have "keys_numbered t1" using Cons.prems(2) by (rule step_keys_numbered)
    moreover from Inr Cons.prems(1) have "run L t1 evs = Inr t'" by simp
    ultimately show ?thesis by (intro Cons.IH)
  qed
qed

lemma identify_requests_kept:
  assumes id: "identify_or_create_agent L t rid b ts = Inr (t', key)"
    and kn: "keys_numbered t"
    and a: "map_of (instances t) k = Some a"
  shows "\<exists>a'. map_of (instances t') k = Some a' \<and> prefix (requests a) (requests a')"
  using id
proof (cases rule: identify_cases)
  case (replay agent)
  with a show ?thesis
    by (cases "k = key")
       (auto simp: attribute_replay_fields update_conv' append_request_fields)
next
  case (continuation agent)
  with a show ?thesis
    by (cases "k = key")
       (auto simp: attribute_continuation_fields update_conv' append_request_def)
next
  case fresh
  from kn a obtain i where i: "i < agent_counter t" and k: "k = ''agent_'' @ str_of_nat i"
    unfolding keys_numbered_def by blast
  have ne: "k \<noteq> key"
  proof
    assume "k = key"
    with k fresh(2) have "str_of_nat i = str_of_nat (agent_counter t)" by simp
    then have "i = agent_counter t" by (rule str_of_nat_inj)
    with i show False by simp
  qed
  from new_agent_lookup_other(1) [OF ne, of L t rid "b_messages b" ts
      "compute_system_prompt_hash L (b_system b)"
      "compute_conversation_fingerprint L (b_messages b)"] a
  obtain a' where a': "map_of (instances t') k = Some a'"
    unfolding fresh(3) by auto
  from new_agent_lookup_other(2) [OF ne a' [unfolded fresh(3)]] a
  have "a' = a\<lparr>child_agent_ids := child_agent_ids a'\<rparr>" by auto
  then have "requests a' = requests (a\<lparr>child_agent_ids := child_agent_ids a'\<rparr>)"
    by (rule arg_cong)
  with a' show ?thesis by simp
qed

lemma record_tool_use_requests:
  assumes "record_tool_use t rid tid name inp key ts = Inr t1"
    and "map_of (instances t) k = Some a"
  shows "\<exists>a'. map_of (instances t1) k = Some a' \<and> requests a' = requests a"
  using assms
  by (cases "k = key")
     (auto simp: record_tool_use_def update_conv' split: if_splits option.splits)

lemma record_tool_result_requests:
  assumes "record_tool_result t rid tid is_err key ts = Inr t1"
    and "map_of (instances t) k = Some a"
  shows "\<exists>a'. map_of (instances t1) k = Some a' \<and> requests a' = requests a"
  using assms
  by (cases "k = key")
     (auto simp: record_tool_result_def update_conv' split: if_splits option.splits)

lemma step_requests_kept:
  assumes st: "step L t e = Inr t'" and kn: "keys_numbered t"
    and a: "map_of (instances t) k = Some a"
  shows "\<exists>a'. map_of (instances t') k = Some a' \<and> prefix (requests a) (requests a')"
proof (cases e)
  case (Identify rid b ts)
  with st obtain key where "identify_or_create_agent L t rid b ts = Inr (t', key)"
    by (blast dest: step_Identify_unfold)
  then show ?thesis using kn a by (rule identify_requests_kept)
next
  case (TrackToolUse rid blk ts)
  with st have "track_tool_use L t rid blk ts = Inr t'" by simp
  from track_tool_use_unfold [OF this] show ?thesis
  proof (elim disjE exE conjE)
    assume "t' = t"
    with a show ?thesis by simp
  next
    fix tid name inp key t1
    assume "record_tool_use t rid tid name inp key ts = Inr t1"
      and t': "t' = register_spawn_hints L t1 rid tid name inp key"
    from record_tool_use_requests [OF this(1) a] show ?thesis
      unfolding t' by (auto simp: register_spawn_hints_fields)
  qed
next
  case (TrackToolResult rid blk ts)
  with st have "track_tool_result L t rid blk ts = Inr t'" by simp
  from track_tool_result_unfold [OF this] show ?thesis
  proof (elim disjE exE)
    assume "t' = t"
    with a show ?thesis by simp
  next
    fix tid is_err key
    assume "record_tool_result t rid tid is_err key ts = Inr t'"
    from record_tool_result_requests [OF this a] show ?thesis by auto
  qed
next
  case (RegisterTaskPrompt task prompt key)
  with st a show ?thesis by (auto simp: register_task_prompt_fields)
next
  case (TrackRequestContent rid ms ts)
  with st a show ?thesis by (auto simp: track_request_content_fields)
next
  case (TrackResponseContent rid bs ts)
  with st a show ?thesis by (auto simp: track_response_content_fields)
next
  case BuildWorkflowDag
  with st have "build_request_sequence_edges L t = Inr t'"
    by (simp only:) (rule step_BuildWorkflowDag_unfold)
  from build_request_sequence_edges_unfold [OF this] a show ?thesis by auto
qed

lemma run_requests_kept:
  "run L t evs = Inr t' \<Longrightarrow> keys_numbered t \<Longrightarrow> map_of (instances t) k = Some a \<Longrightarrow>
     \<exists>a'. map_of (instances t') k = Some a' \<and> prefix (requests a) (requests a')"
proof (induction evs arbitrary: t a)
  case Nil
  then show ?case by auto
next
  case (Cons e evs)
  show ?case
  proof (cases "step L t e")
    case (Inl err)
    with Cons.prems(1) show ?thesis by simp
  next
    case (Inr t1)
    from step_requests_kept [OF Inr Cons.prems(2,3)] obtain a1 where
      a1: "map_of (instances t1) k = Some a1" and p1: "prefix (requests a) (requests a1)"
      by blast
    from Inr Cons.prems(2) have kn1: "keys_numbered t1" by (rule step_keys_numbered)
    from Inr Cons.prems(1) have "run L t1 evs = Inr t'" by simp
    from Cons.IH [OF this kn1 a1] obtain a' where
      "map_of (instances t') k = Some a'" "prefix (requests a1) (requests a')"
      by blast
    with p1 show ?thesis by (auto intro: prefix_order.trans)
  qed
qed

subsection \<open>Replay, accumulated fingerprints and message counts\<close>

text \<open>
  C1. In a state reached by processing a log stream, let request \<open>n\<close> be attributed to the
  agent \<open>key\<close>: the agent stored under \<open>key\<close> then holds \<open>n\<close> in its \<open>requests\<close>. After any
  further processing, the agent stored under \<open>key\<close> still holds \<open>n\<close>, and a request \<open>m\<close> whose
  messages have the fingerprint of request \<open>n\<close> is attributed to it: \<open>identify_or_create_agent\<close>
  returns \<open>key\<close>, appends \<open>m\<close>, its message count and its timestamp to that agent, and maps \<open>m\<close>
  to \<open>key\<close>. Every other agent, the stored keys, the agent counter and the fingerprint map are
  unchanged, so no agent is created.
\<close>

theorem replay_same_agent:
  assumes "run L init_tracker evs = Inr t0"
    and "identify_or_create_agent L t0 n b ts = Inr (t1, key)"
    and "run L t1 between = Inr t2"
    and "compute_conversation_fingerprint L (b_messages b') =
         compute_conversation_fingerprint L (b_messages b)"
  shows "map_of (request_to_agent t1) n = Some key \<and>
         (\<exists>a1. map_of (instances t1) key = Some a1 \<and> agent_id a1 = key \<and>
               n \<in> set (requests a1) \<and> last_request_id a1 = n) \<and>
         (\<exists>t3 a2 a3. identify_or_create_agent L t2 m b' ts' = Inr (t3, key) \<and>
               map_of (instances t2) key = Some a2 \<and>
               n \<in> set (requests a2) \<and>
               map_of (instances t3) key = Some a3 \<and>
               agent_id a2 = key \<and> agent_id a3 = key \<and>
               requests a3 = requests a2 @ [m] \<and>
               last_request_id a3 = m \<and>
               message_count_history a3 = message_count_history a2 @ [length (b_messages b')] \<and>
               timestamps a3 = timestamps a2 @ [ts'] \<and>
               a3 = append_request a2 m (length (b_messages b')) ts' \<and>
               (\<forall>k. k \<noteq> key \<longrightarrow> map_of (instances t3) k = map_of (instances t2) k) \<and>
               map fst (instances t3) = map fst (instances t2) \<and>
               agent_counter t3 = agent_counter t2 \<and>
               fingerprint_to_agent t3 = fingerprint_to_agent t2 \<and>
               map_of (request_to_agent t3) m = Some key)"
proof -
  from assms(1) have c0: "consistent t0" by (rule reachable_consistent)
  from assms(2) c0 have c1: "consistent t1" by (rule identify_consistent)
  from assms(3) c1 have c2: "consistent t2" by (rule run_consistent)
  from assms(1) keys_numbered_init have "keys_numbered t0" by (rule run_keys_numbered)
  with assms(2) have kn1: "keys_numbered t1" by (rule identify_keys_numbered)
  from identify_registers [OF assms(2) c0]
  have fp1: "map_of (fingerprint_to_agent t1)
      (compute_conversation_fingerprint L (b_messages b)) = Some key"
    and owner: "map_of (request_to_agent t1) n = Some key"
    by blast+
  from identify_owner [OF assms(2) c0] obtain a1 where
    a1: "map_of (instances t1) key = Some a1" "agent_id a1 = key"
      "n \<in> set (requests a1)" "last_request_id a1 = n"
    by blast
  from run_requests_kept [OF assms(3) kn1 a1(1)] obtain a2' where
    a2': "map_of (instances t2) key = Some a2'" and pre: "prefix (requests a1) (requests a2')"
    by blast
  from pre a1(3) have n2: "n \<in> set (requests a2')"
    by (auto dest: set_mono_prefix)
  from assms(3) fp1 have "map_of (fingerprint_to_agent t2)
      (compute_conversation_fingerprint L (b_messages b)) = Some key"
    by (rule run_fingerprint_kept)
  with assms(4) have "map_of (fingerprint_to_agent t2)
      (compute_conversation_fingerprint L (b_messages b')) = Some key"
    by simp
  from identify_known_fingerprint_state [OF c2 this, of m ts'] obtain t3 a2 a3 where
    r: "identify_or_create_agent L t2 m b' ts' = Inr (t3, key)"
      "map_of (instances t2) key = Some a2"
      "map_of (instances t3) key = Some a3"
      "agent_id a2 = key" "agent_id a3 = key"
      "requests a3 = requests a2 @ [m]"
      "last_request_id a3 = m"
      "message_count_history a3 = message_count_history a2 @ [length (b_messages b')]"
      "timestamps a3 = timestamps a2 @ [ts']"
      "a3 = append_request a2 m (length (b_messages b')) ts'"
      "\<forall>k. k \<noteq> key \<longrightarrow> map_of (instances t3) k = map_of (instances t2) k"
      "map fst (instances t3) = map fst (instances t2)"
      "agent_counter t3 = agent_counter t2"
      "fingerprint_to_agent t3 = fingerprint_to_agent t2"
      "map_of (request_to_agent t3) m = Some key"
    by blast
  from a2' r(2) have "a2' = a2" by simp
  with n2 have n2: "n \<in> set (requests a2)" by simp
  have first: "\<exists>a1. map_of (instances t1) key = Some a1 \<and> agent_id a1 = key \<and>
      n \<in> set (requests a1) \<and> last_request_id a1 = n"
    using a1 by blast
  have second: "(\<exists>t3 a2 a3. identify_or_create_agent L t2 m b' ts' = Inr (t3, key) \<and>
            map_of (instances t2) key = Some a2 \<and>
            n \<in> set (requests a2) \<and>
            map_of (instances t3) key = Some a3 \<and>
            agent_id a2 = key \<and> agent_id a3 = key \<and>
            requests a3 = requests a2 @ [m] \<and>
            last_request_id a3 = m \<and>
            message_count_history a3 = message_count_history a2 @ [length (b_messages b')] \<and>
            timestamps a3 = timestamps a2 @ [ts'] \<and>
            a3 = append_request a2 m (length (b_messages b')) ts' \<and>
            (\<forall>k. k \<noteq> key \<longrightarrow> map_of (instances t3) k = map_of (instances t2) k) \<and>
            map fst (instances t3) = map fst (instances t2) \<and>
            agent_counter t3 = agent_counter t2 \<and>
            fingerprint_to_agent t3 = fingerprint_to_agent t2 \<and>
            map_of (request_to_agent t3) m = Some key)"
    using r(1,2) n2 r(3-15) by (intro exI [of _ t3] exI [of _ a2] exI [of _ a3] conjI)
  from owner first second show ?thesis by (intro conjI)
qed

lemma hi_first_request:
  "identify_or_create_agent demo_lib init_tracker 0 hi_body [] =
     Inr (final_state (run demo_lib init_tracker [Identify 0 hi_body []]), ''agent_0'')"
  by code_simp

lemma hi_tracking:
  "run demo_lib (final_state (run demo_lib init_tracker [Identify 0 hi_body []]))
       [TrackResponseContent 0 [TextBlock (Some ''hello'')] []] =
     Inr (final_state (run demo_lib init_tracker hi_stream))"
  by code_simp

text \<open>
  C1, witness: request 0 is \<open>[user: hi]\<close>, its response is tracked, and request 1 repeats
  the body of request 0.
\<close>

theorem replay_same_agent_witness:
  "run demo_lib init_tracker [] = Inr init_tracker \<and>
   identify_or_create_agent demo_lib init_tracker 0 hi_body [] =
     Inr (final_state (run demo_lib init_tracker [Identify 0 hi_body []]), ''agent_0'') \<and>
   run demo_lib (final_state (run demo_lib init_tracker [Identify 0 hi_body []]))
       [TrackResponseContent 0 [TextBlock (Some ''hello'')] []] =
     Inr (final_state (run demo_lib init_tracker hi_stream)) \<and>
   map_of (request_to_agent (final_state (run demo_lib init_tracker [Identify 0 hi_body []]))) 0 = Some ''agent_0'' \<and>
   (\<exists>a1. map_of (instances (final_state (run demo_lib init_tracker [Identify 0 hi_body []]))) ''agent_0'' = Some a1 \<and> agent_id a1 = ''agent_0'' \<and>
         0 \<in> set (requests a1) \<and> last_request_id a1 = 0) \<and>
   (\<exists>t3 a2 a3. identify_or_create_agent demo_lib (final_state (run demo_lib init_tracker hi_stream)) 1 hi_body [] = Inr (t3, ''agent_0'') \<and>
         map_of (instances (final_state (run demo_lib init_tracker hi_stream))) ''agent_0'' = Some a2 \<and>
         0 \<in> set (requests a2) \<and>
         map_of (instances t3) ''agent_0'' = Some a3 \<and>
         agent_id a2 = ''agent_0'' \<and> agent_id a3 = ''agent_0'' \<and>
         requests a3 = requests a2 @ [1] \<and>
         last_request_id a3 = 1 \<and>
         message_count_history a3 = message_count_history a2 @ [length (b_messages hi_body)] \<and>
         timestamps a3 = timestamps a2 @ [[]] \<and>
         a3 = append_request a2 1 (length (b_messages hi_body)) [] \<and>
         (\<forall>k. k \<noteq> ''agent_0'' \<longrightarrow> map_of (instances t3) k = map_of (instances (final_state (run demo_lib init_tracker hi_stream))) k) \<and>
         map fst (instances t3) = map fst (instances (final_state (run demo_lib init_tracker hi_stream))) \<and>
         agent_counter t3 = agent_counter (final_state (run demo_lib init_tracker hi_stream)) \<and>
         fingerprint_to_agent t3 = fingerprint_to_agent (final_state (run demo_lib init_tracker hi_stream)) \<and>
         map_of (request_to_agent t3) 1 = Some ''agent_0'')"
proof -
  have h1: "run demo_lib init_tracker [] = Inr init_tracker" by simp
  note h2 = hi_first_request and h3 = hi_tracking
  have h4: "compute_conversation_fingerprint demo_lib (b_messages hi_body) =
      compute_conversation_fingerprint demo_lib (b_messages hi_body)" ..
  note c = replay_same_agent [OF h1 h2 h3 h4, of 1 "[]"]
  show ?thesis
    by (rule conjI, rule h1, rule conjI, rule h2, rule conjI, rule h3, rule c)
qed

text \<open>
  C10. A fingerprint registered for an agent in a reachable state maps to the same agent after
  any further processing, continuations included. So a later request with that fingerprint, a
  replay of that earlier conversation state, is attributed to that agent: the agent is stored,
  the request, its message count and its timestamp are appended to it, the request is mapped to
  it, and every other agent, the stored keys, the agent counter and the fingerprint map are
  unchanged, so no agent is created.
\<close>

theorem fingerprint_map_accumulates:
  assumes "run L init_tracker evs = Inr t"
    and "map_of (fingerprint_to_agent t) fp = Some key"
    and "run L t later = Inr t'"
  shows "map_of (fingerprint_to_agent t') fp = Some key \<and>
         (\<forall>b rid ts. compute_conversation_fingerprint L (b_messages b) = fp \<longrightarrow>
            (\<exists>t'' a a'. identify_or_create_agent L t' rid b ts = Inr (t'', key) \<and>
                  map_of (instances t') key = Some a \<and>
                  map_of (instances t'') key = Some a' \<and>
                  agent_id a = key \<and> agent_id a' = key \<and>
                  requests a' = requests a @ [rid] \<and>
                  last_request_id a' = rid \<and>
                  message_count_history a' = message_count_history a @ [length (b_messages b)] \<and>
                  timestamps a' = timestamps a @ [ts] \<and>
                  a' = append_request a rid (length (b_messages b)) ts \<and>
                  (\<forall>k. k \<noteq> key \<longrightarrow> map_of (instances t'') k = map_of (instances t') k) \<and>
                  map fst (instances t'') = map fst (instances t') \<and>
                  agent_counter t'' = agent_counter t' \<and>
                  fingerprint_to_agent t'' = fingerprint_to_agent t' \<and>
                  map_of (request_to_agent t'') rid = Some key))"
proof (intro conjI allI impI)
  from assms(3,2) show kept: "map_of (fingerprint_to_agent t') fp = Some key"
    by (rule run_fingerprint_kept)
  fix b :: body and rid ts
  assume fp: "compute_conversation_fingerprint L (b_messages b) = fp"
  from assms(1) have "consistent t" by (rule reachable_consistent)
  with assms(3) have c: "consistent t'" by (rule run_consistent)
  from kept fp have "map_of (fingerprint_to_agent t')
      (compute_conversation_fingerprint L (b_messages b)) = Some key"
    by simp
  with c show "\<exists>t'' a a'. identify_or_create_agent L t' rid b ts = Inr (t'', key) \<and>
            map_of (instances t') key = Some a \<and>
            map_of (instances t'') key = Some a' \<and>
            agent_id a = key \<and> agent_id a' = key \<and>
            requests a' = requests a @ [rid] \<and>
            last_request_id a' = rid \<and>
            message_count_history a' = message_count_history a @ [length (b_messages b)] \<and>
            timestamps a' = timestamps a @ [ts] \<and>
            a' = append_request a rid (length (b_messages b)) ts \<and>
            (\<forall>k. k \<noteq> key \<longrightarrow> map_of (instances t'') k = map_of (instances t') k) \<and>
            map fst (instances t'') = map fst (instances t') \<and>
            agent_counter t'' = agent_counter t' \<and>
            fingerprint_to_agent t'' = fingerprint_to_agent t' \<and>
            map_of (request_to_agent t'') rid = Some key"
    by (rule identify_known_fingerprint_state)
qed

lemma hi_registered:
  "run demo_lib init_tracker [Identify 0 hi_body []] =
     Inr (final_state (run demo_lib init_tracker [Identify 0 hi_body []]))"
  "map_of (fingerprint_to_agent (final_state (run demo_lib init_tracker [Identify 0 hi_body []])))
     (compute_conversation_fingerprint demo_lib (b_messages hi_body)) = Some ''agent_0''"
  "run demo_lib (final_state (run demo_lib init_tracker [Identify 0 hi_body []]))
     [Identify 1 hi_again_body []] = Inr (final_state (run demo_lib init_tracker grown_stream))"
  "conversation_fingerprint
     (the (map_of (instances (final_state (run demo_lib init_tracker grown_stream))) ''agent_0'')) =
   compute_conversation_fingerprint demo_lib (b_messages hi_again_body)"
  "compute_conversation_fingerprint demo_lib (b_messages hi_again_body) \<noteq>
   compute_conversation_fingerprint demo_lib (b_messages hi_body)"
  by code_simp+

text \<open>
  C10, witness: request 1 continues request 0, and the agent takes the new fingerprint; the
  fingerprint of request 0 still maps to the agent, and request 2, a replay of request 0, is
  attributed to it.
\<close>

theorem fingerprint_map_accumulates_witness:
  "run demo_lib init_tracker [Identify 0 hi_body []] =
     Inr (final_state (run demo_lib init_tracker [Identify 0 hi_body []])) \<and>
   map_of (fingerprint_to_agent (final_state (run demo_lib init_tracker [Identify 0 hi_body []])))
     (compute_conversation_fingerprint demo_lib (b_messages hi_body)) = Some ''agent_0'' \<and>
   run demo_lib (final_state (run demo_lib init_tracker [Identify 0 hi_body []]))
     [Identify 1 hi_again_body []] = Inr (final_state (run demo_lib init_tracker grown_stream)) \<and>
   conversation_fingerprint
     (the (map_of (instances (final_state (run demo_lib init_tracker grown_stream))) ''agent_0'')) \<noteq>
     compute_conversation_fingerprint demo_lib (b_messages hi_body) \<and>
   map_of (fingerprint_to_agent (final_state (run demo_lib init_tracker grown_stream)))
     (compute_conversation_fingerprint demo_lib (b_messages hi_body)) = Some ''agent_0'' \<and>
   (\<exists>t'' a a'. identify_or_create_agent demo_lib (final_state (run demo_lib init_tracker grown_stream)) 2 hi_body [] = Inr (t'', ''agent_0'') \<and>
         map_of (instances (final_state (run demo_lib init_tracker grown_stream))) ''agent_0'' = Some a \<and>
         map_of (instances t'') ''agent_0'' = Some a' \<and>
         agent_id a = ''agent_0'' \<and> agent_id a' = ''agent_0'' \<and>
         requests a' = requests a @ [2] \<and>
         last_request_id a' = 2 \<and>
         message_count_history a' = message_count_history a @ [length (b_messages hi_body)] \<and>
         timestamps a' = timestamps a @ [[]] \<and>
         a' = append_request a 2 (length (b_messages hi_body)) [] \<and>
         (\<forall>k. k \<noteq> ''agent_0'' \<longrightarrow> map_of (instances t'') k = map_of (instances (final_state (run demo_lib init_tracker grown_stream))) k) \<and>
         map fst (instances t'') = map fst (instances (final_state (run demo_lib init_tracker grown_stream))) \<and>
         agent_counter t'' = agent_counter (final_state (run demo_lib init_tracker grown_stream)) \<and>
         fingerprint_to_agent t'' = fingerprint_to_agent (final_state (run demo_lib init_tracker grown_stream)) \<and>
         map_of (request_to_agent t'') 2 = Some ''agent_0'')"
proof -
  note th = fingerprint_map_accumulates [OF hi_registered(1,2,3)]
  from th have kept: "map_of (fingerprint_to_agent (final_state (run demo_lib init_tracker grown_stream)))
     (compute_conversation_fingerprint demo_lib (b_messages hi_body)) = Some ''agent_0''"
    by (rule conjunct1)
  have replayed: "\<exists>t'' a a'. identify_or_create_agent demo_lib (final_state (run demo_lib init_tracker grown_stream)) 2 hi_body [] = Inr (t'', ''agent_0'') \<and>
            map_of (instances (final_state (run demo_lib init_tracker grown_stream))) ''agent_0'' = Some a \<and>
            map_of (instances t'') ''agent_0'' = Some a' \<and>
            agent_id a = ''agent_0'' \<and> agent_id a' = ''agent_0'' \<and>
            requests a' = requests a @ [2] \<and>
            last_request_id a' = 2 \<and>
            message_count_history a' = message_count_history a @ [length (b_messages hi_body)] \<and>
            timestamps a' = timestamps a @ [[]] \<and>
            a' = append_request a 2 (length (b_messages hi_body)) [] \<and>
            (\<forall>k. k \<noteq> ''agent_0'' \<longrightarrow> map_of (instances t'') k = map_of (instances (final_state (run demo_lib init_tracker grown_stream))) k) \<and>
            map fst (instances t'') = map fst (instances (final_state (run demo_lib init_tracker grown_stream))) \<and>
            agent_counter t'' = agent_counter (final_state (run demo_lib init_tracker grown_stream)) \<and>
            fingerprint_to_agent t'' = fingerprint_to_agent (final_state (run demo_lib init_tracker grown_stream)) \<and>
            map_of (request_to_agent t'') 2 = Some ''agent_0''"
    by (rule th [THEN conjunct2, rule_format, OF refl])
  from hi_registered(4,5) have moved: "conversation_fingerprint
     (the (map_of (instances (final_state (run demo_lib init_tracker grown_stream))) ''agent_0'')) \<noteq>
     compute_conversation_fingerprint demo_lib (b_messages hi_body)"
    by simp
  show ?thesis
    by (rule conjI, rule hi_registered(1), rule conjI, rule hi_registered(2),
        rule conjI, rule hi_registered(3), rule conjI, rule moved, rule conjI, rule kept,
        rule replayed)
qed

text \<open>
  C2, as amended. The \<open>message_count_history\<close> of every agent is a subsequence of the
  message counts of the requests of the stream, in processing order: each request adds its own
  count to the agent it is attributed to. So the history is non-decreasing whenever the message
  counts of the stream are.
\<close>

theorem history_follows_stream:
  assumes "run L init_tracker evs = Inr t" and "map_of (instances t) key = Some agent"
  shows "subseq (message_count_history agent) (message_counts evs) \<and>
         (sorted (message_counts evs) \<longrightarrow> sorted (message_count_history agent))"
proof -
  from assms have "subseq (message_count_history agent) (message_counts evs)"
    by (rule history_subseq)
  then show ?thesis by (blast intro: subseq_sorted)
qed

lemma grown_agent:
  "run demo_lib init_tracker grown_stream = Inr (final_state (run demo_lib init_tracker grown_stream))"
  "map_of (instances (final_state (run demo_lib init_tracker grown_stream))) ''agent_0'' =
     Some (the (map_of (instances (final_state (run demo_lib init_tracker grown_stream))) ''agent_0''))"
  "message_count_history
     (the (map_of (instances (final_state (run demo_lib init_tracker grown_stream))) ''agent_0'')) = [1, 3]"
  "message_counts grown_stream = [1, 3]"
  by code_simp+

text \<open>
  C2, witness: the stream of the scenario, with the history \<open>[1, 3]\<close>.
\<close>

theorem history_follows_stream_witness:
  "run demo_lib init_tracker grown_stream = Inr (final_state (run demo_lib init_tracker grown_stream)) \<and>
   map_of (instances (final_state (run demo_lib init_tracker grown_stream))) ''agent_0'' =
     Some (the (map_of (instances (final_state (run demo_lib init_tracker grown_stream))) ''agent_0'')) \<and>
   message_counts grown_stream = [1, 3] \<and>
   sorted (message_counts grown_stream) \<and>
   message_count_history
     (the (map_of (instances (final_state (run demo_lib init_tracker grown_stream))) ''agent_0'')) = [1, 3] \<and>
   subseq (message_count_history
     (the (map_of (instances (final_state (run demo_lib init_tracker grown_stream))) ''agent_0'')))
     (message_counts grown_stream) \<and>
   sorted (message_count_history
     (the (map_of (instances (final_state (run demo_lib init_tracker grown_stream))) ''agent_0'')))"
proof -
  have s: "sorted (message_counts grown_stream)"
    by (simp add: grown_agent(4))
  from history_follows_stream [OF grown_agent(1,2)] s grown_agent show ?thesis
    by (intro conjI) blast+
qed

text \<open>
  C2, counterexample: request 2 replays the one-message conversation of request 0 after the
  agent has grown to three messages; it is attributed to the same agent, whose history becomes
  \<open>[1, 3, 1]\<close>.
\<close>

theorem history_not_monotone_counterexample:
  "agent_history (run demo_lib init_tracker replay_stream) ''agent_0'' = Some [1, 3, 1] \<and>
   \<not> sorted [1, 3, 1 :: nat]"
proof
  show "agent_history (run demo_lib init_tracker replay_stream) ''agent_0'' = Some [1, 3, 1]"
    by code_simp
  show "\<not> sorted [1, 3, 1 :: nat]" by simp
qed

subsection \<open>Edges of the assembled graph\<close>

lemma enumerate_index_bound:
  "(i, x) \<in> set (enumerate 0 xs) \<Longrightarrow> i < length xs"
  by (simp add: in_set_enumerate_eq)











lemma response_hashes_index:
  "(h, idx, preview) \<in> set (response_hashes L logs) \<Longrightarrow> idx < length logs"
  by (auto simp: response_hashes_def Let_def dest: enumerate_index_bound split: if_splits)











subsection \<open>Content reuse edges\<close>
















subsection \<open>Spawn detection without a timestamp\<close>


lemma spawn_detection_unparseable:
  "detect_subagent_spawns demo_lib [task_entry (Some ''yesterday'')] = Inl ValueError"
  by code_simp

subsection \<open>Repeated tool results and repeated builds\<close>








lemma track_tool_use_known:
  assumes "map_of (tool_use_index t) tid = Some known"
    and "track_tool_use L t rid (ToolUseBlock (Some tid) name inp) ts = Inr t'"
  shows "tool_use_index t' = tool_use_index t \<and> tool_result_index t' = tool_result_index t \<and>
         instances t' = instances t \<and> workflow_edges t' = workflow_edges t"
proof -
  from assms(1) have same: "record_tool_use t rid tid name inp key ts = Inr t" for key
    by (simp add: record_tool_use_def)
  from assms(2) have "t' = t \<or> (\<exists>key. t' = register_spawn_hints L t rid tid name inp key)"
    by (auto simp: track_tool_use_def same split: if_splits option.splits)
  then show ?thesis
    by (auto simp: register_spawn_hints_fields)
qed



subsection \<open>Occurrence counts of the deduplicator\<close>














end
